theory Spec2Isabelle
  imports Complex_Main "HOL-Library.Log_Nat"
begin

chapter \<open>Sea Street Detailing: booking form, confirmation page and slot engine\<close>

text \<open>
  The repository holds the client side of the booking platform: the multi-step booking
  form (\<^verbatim>\<open>BookPage\<close>) and the confirmation page (\<^verbatim>\<open>BookingConfirmationPage\<close>).
  Both are embedded below from their TypeScript source. The availability engine and the
  reservation manager sit behind \<^verbatim>\<open>/api/availability\<close> and \<^verbatim>\<open>/api/bookings\<close>;
  their definitions are marked as modelled from the specification.
\<close>

section \<open>Strings and numbers of the source language\<close>

text \<open>
  A JavaScript string is a sequence of UTF-16 code units; a code unit is kept as its
  number. Literals of the source are written \<open>js ''...''\<close>. Record fields carry a short
  prefix where two interfaces of the source share a field name (\<^verbatim>\<open>id\<close>, \<^verbatim>\<open>name\<close>,
  \<^verbatim>\<open>price\<close>, \<^verbatim>\<open>duration\<close>, ...).
\<close>

type_synonym code_unit = nat
type_synonym jstring = "code_unit list"

definition js :: "string \<Rightarrow> jstring" where
  "js s = map of_char s"

text \<open>
  A JavaScript \<^verbatim>\<open>number\<close> is an IEEE 754 binary64 value: a finite value, kept as the
  rational it denotes, or one of \<open>-0\<close>, \<open>+\<infinity>\<close>, \<open>-\<infinity>\<close> and NaN. \<open>Finite 0\<close> is \<open>+0\<close>.
\<close>

datatype number = Finite rat | MinusZero | Infinity | MinusInfinity | NaN

text \<open>
  Rounding of an exact result to binary64 in the mode roundTiesToEven, which every
  arithmetic operator of the language applies. \<open>floorLog2 a\<close> is the exponent \<open>e\<close> of a
  positive \<open>a\<close>, the integer with \<open>2 powi e \<le> a < 2 powi (e + 1)\<close>. The significand has
  53 bits, so the result is a multiple of \<open>2 powi k\<close> for \<open>k = e - 52\<close>, and of
  \<open>2 powi (- 1074)\<close> in the subnormal range. A magnitude that rounds to \<open>2 powi 1024\<close>
  or more overflows to an infinity; one that rounds to nothing gives a zero of the
  sign of the exact result.
\<close>

definition roundHalfEven :: "rat \<Rightarrow> int" where
  "roundHalfEven x =
     (let f = \<lfloor>x\<rfloor>; d = x - of_int f
      in if d < 1 / 2 then f else if 1 / 2 < d then f + 1 else if even f then f else f + 1)"

definition floorLog2 :: "rat \<Rightarrow> int" where
  "floorLog2 a =
     (let e = bitlen (fst (quotient_of a)) - bitlen (snd (quotient_of a))
      in if 2 powi e \<le> a then e else e - 1)"

text \<open>
  The least magnitude that overflows, \<open>2 powi 1024\<close>, written as a power of \<open>2 ^ 32\<close>
  to keep its evaluation short.
\<close>

definition overflowThreshold :: rat where
  "overflowThreshold = (2 ^ 32) ^ 32"

definition roundNearest :: "rat \<Rightarrow> number" where
  "roundNearest x =
     (if x = 0 then Finite 0
      else
        let a = \<bar>x\<bar>;
            k = max (floorLog2 a - 52) (- 1074);
            m = roundHalfEven (a / 2 powi k);
            v = of_int m * 2 powi k
        in if overflowThreshold \<le> v then (if 0 < x then Infinity else MinusInfinity)
           else if m = 0 then (if 0 < x then Finite 0 else MinusZero)
           else Finite (if 0 < x then v else - v))"

text \<open>
  The sign of a number, the two zeros, the two infinities, and a zero or an infinity
  of a given sign.
\<close>

fun negative :: "number \<Rightarrow> bool" where
  "negative (Finite r) = (r < 0)"
| "negative MinusZero = True"
| "negative MinusInfinity = True"
| "negative Infinity = False"
| "negative NaN = False"

definition isZero :: "number \<Rightarrow> bool" where
  "isZero x \<longleftrightarrow> x = Finite 0 \<or> x = MinusZero"

definition isInfinite :: "number \<Rightarrow> bool" where
  "isInfinite x \<longleftrightarrow> x = Infinity \<or> x = MinusInfinity"

definition signedZero :: "bool \<Rightarrow> number" where
  "signedZero neg = (if neg then MinusZero else Finite 0)"

definition signedInfinity :: "bool \<Rightarrow> number" where
  "signedInfinity neg = (if neg then MinusInfinity else Infinity)"

text \<open>
  The operator \<^verbatim>\<open>+\<close> on two numbers (\<^verbatim>\<open>Number::add\<close>): NaN is contagious, infinities of
  opposite sign give NaN, \<open>-0 + -0\<close> is \<open>-0\<close>, every other finite sum is the exact sum
  rounded, and an exact sum of zero is \<open>+0\<close>.
\<close>

definition numberAdd :: "number \<Rightarrow> number \<Rightarrow> number" where
  "numberAdd x y =
     (if x = NaN \<or> y = NaN then NaN
      else if isInfinite x then (if isInfinite y \<and> x \<noteq> y then NaN else x)
      else if isInfinite y then y
      else if x = MinusZero then y
      else if y = MinusZero then x
      else (case (x, y) of (Finite a, Finite b) \<Rightarrow> roundNearest (a + b) | _ \<Rightarrow> NaN))"

text \<open>
  The operator \<^verbatim>\<open>/\<close> on two numbers (\<^verbatim>\<open>Number::divide\<close>): NaN is contagious, an
  infinity by an infinity and a zero by a zero give NaN; otherwise the sign of the result
  is negative exactly when the signs of the operands differ, a division by an infinity
  gives a zero, a division by a zero or of an infinity gives an infinity, and every
  other quotient is the exact quotient rounded.
\<close>

definition numberDivide :: "number \<Rightarrow> number \<Rightarrow> number" where
  "numberDivide x y =
     (if x = NaN \<or> y = NaN then NaN
      else if isInfinite x then
        (if isInfinite y then NaN else signedInfinity (negative x \<noteq> negative y))
      else if isInfinite y then signedZero (negative x \<noteq> negative y)
      else if isZero y then
        (if isZero x then NaN else signedInfinity (negative x \<noteq> negative y))
      else if isZero x then signedZero (negative x \<noteq> negative y)
      else (case (x, y) of (Finite a, Finite b) \<Rightarrow> roundNearest (a / b) | _ \<Rightarrow> NaN))"

text \<open>
  The number that an integer of a JSON document or of the program text denotes: the
  binary64 value nearest to it.
\<close>

definition ofInt :: "int \<Rightarrow> number" where
  "ofInt n = roundNearest (of_int n)"

text \<open>
  \<^verbatim>\<open>v || 0\<close> for \<^verbatim>\<open>v: number | undefined\<close>: \<^verbatim>\<open>undefined\<close>, both zeros and NaN are falsy
  and give \<open>+0\<close>, every other number is kept.
\<close>

definition orZero :: "number option \<Rightarrow> number" where
  "orZero v =
     (case v of
        None \<Rightarrow> Finite 0
      | Some x \<Rightarrow> if isZero x \<or> x = NaN then Finite 0 else x)"

section \<open>The booking form\<close>

subsection \<open>Interfaces\<close>

record Service =
  svc_id :: jstring
  svc_name :: jstring
  svc_price :: number
  svc_duration :: number
  svc_features :: "jstring list option"
  svc_featured :: bool

record AddOn =
  addon_id :: jstring
  addon_name :: jstring
  addon_price :: number
  addon_duration :: number

text \<open>
  Catalog entries as \<^verbatim>\<open>/api/services\<close> delivers them (\<^verbatim>\<open>APIService\<close>, \<^verbatim>\<open>APIAddOn\<close>):
  durations in minutes and prices in cents, kept as the integers that the JSON document
  holds (the \<^verbatim>\<open>formatted\<close> price string is not read).
\<close>

record APIService =
  api_svc_id :: jstring
  api_svc_name :: jstring
  api_svc_duration :: int
  api_svc_cents :: int

record APIAddOn =
  api_addon_id :: jstring
  api_addon_name :: jstring
  api_addon_duration :: int
  api_addon_cents :: int

text \<open>
  \<^verbatim>\<open>serviceFeatures[svc.name] || []\<close>: the lookup in the object literal finds its three
  own properties and also the properties that every object inherits from
  \<^verbatim>\<open>Object.prototype\<close>. The inherited values are truthy and none of them is an array;
  \<open>None\<close> stands for such a value (the card of such a service cannot be rendered). Any
  other name gives \<^verbatim>\<open>undefined\<close> and hence the empty list.
\<close>

definition inheritedProperty :: "jstring \<Rightarrow> bool" where
  "inheritedProperty name \<longleftrightarrow>
     name \<in> set (map js [''constructor'', ''hasOwnProperty'', ''isPrototypeOf'',
       ''propertyIsEnumerable'', ''toLocaleString'', ''toString'', ''valueOf'', ''__proto__'',
       ''__defineGetter__'', ''__defineSetter__'', ''__lookupGetter__'', ''__lookupSetter__''])"

definition serviceFeatures :: "jstring \<Rightarrow> jstring list option" where
  "serviceFeatures name =
     (if name = js ''Basic Wash'' then
        Some [js ''Exterior hand wash'', js ''Wheel & tire cleaning'', js ''Window cleaning'',
         js ''Quick interior vacuum'', js ''Dashboard wipe-down'']
      else if name = js ''Premium Detail'' then
        Some [js ''Everything in Basic Wash'', js ''Clay bar treatment'',
         js ''Premium wax application'', js ''Interior deep cleaning'',
         js ''Leather conditioning'', js ''Carpet & upholstery cleaning'']
      else if name = js ''Luxury Package'' then
        Some [js ''Everything in Premium Detail'', js ''Paint correction (1-step)'',
         js ''Ceramic coating application'', js ''Headlight restoration'',
         js ''Interior protection treatment'', js ''90-day protection guarantee'']
      else if inheritedProperty name then None
      else Some [])"

text \<open>
  The entries as the form keeps them (\<^verbatim>\<open>formattedServices\<close>, \<^verbatim>\<open>formattedAddOns\<close>): the
  price is \<^verbatim>\<open>cents / 100\<close>, a division of numbers, the duration is copied.
\<close>

definition formattedService :: "APIService \<Rightarrow> Service" where
  "formattedService svc =
     \<lparr> svc_id = api_svc_id svc, svc_name = api_svc_name svc,
       svc_price = numberDivide (ofInt (api_svc_cents svc)) (ofInt 100),
       svc_duration = ofInt (api_svc_duration svc),
       svc_features = serviceFeatures (api_svc_name svc),
       svc_featured = (api_svc_name svc = js ''Premium Detail'') \<rparr>"

definition formattedAddOn :: "APIAddOn \<Rightarrow> AddOn" where
  "formattedAddOn addon =
     \<lparr> addon_id = api_addon_id addon, addon_name = api_addon_name addon,
       addon_price = numberDivide (ofInt (api_addon_cents addon)) (ofInt 100),
       addon_duration = ofInt (api_addon_duration addon) \<rparr>"

text \<open>
  A \<^verbatim>\<open>TimeSlot\<close> of the availability response. The form only copies \<^verbatim>\<open>startUtc\<close> and
  \<^verbatim>\<open>endUtc\<close> into the booking request; an ISO instant is kept as its epoch milliseconds.
  The display labels (\<^verbatim>\<open>start\<close>, \<^verbatim>\<open>end\<close>, \<^verbatim>\<open>formatted\<close>) are presentation only.
\<close>

record TimeSlot =
  startUtc :: int
  endUtc :: int

text \<open>The \<^verbatim>\<open>useState\<close> cells of \<^verbatim>\<open>BookPage\<close> that the handlers below read or write.\<close>

record BookPage =
  currentStep :: int
  selectedService :: "jstring option"
  selectedAddOns :: "jstring list"
  selectedDate :: "jstring option"
  selectedTimeSlot :: "TimeSlot option"
  customerName :: jstring
  customerEmail :: jstring
  customerPhone :: jstring
  customerAddress :: jstring
  customerNotes :: jstring
  formErrors :: "(jstring \<times> jstring) list"
  services :: "Service list"
  addOns :: "AddOn list"
  availableSlots :: "TimeSlot list"

definition initialPage :: BookPage where
  "initialPage = \<lparr> currentStep = 1, selectedService = None, selectedAddOns = [],
     selectedDate = None, selectedTimeSlot = None, customerName = [], customerEmail = [],
     customerPhone = [], customerAddress = [], customerNotes = [], formErrors = [],
     services = [], addOns = [], availableSlots = [] \<rparr>"

text \<open>Truthiness of \<^verbatim>\<open>string | null\<close>: \<^verbatim>\<open>null\<close> and the empty string are falsy.\<close>

definition truthy :: "jstring option \<Rightarrow> bool" where
  "truthy v = (case v of None \<Rightarrow> False | Some s \<Rightarrow> s \<noteq> [])"

subsection \<open>Totals\<close>

definition selectedServiceData :: "BookPage \<Rightarrow> Service option" where
  "selectedServiceData p =
     (case selectedService p of
        None \<Rightarrow> None
      | Some i \<Rightarrow> find (\<lambda>s. svc_id s = i) (services p))"

definition servicePrice :: "BookPage \<Rightarrow> number" where
  "servicePrice p = orZero (map_option svc_price (selectedServiceData p))"

definition serviceDuration :: "BookPage \<Rightarrow> number" where
  "serviceDuration p = orZero (map_option svc_duration (selectedServiceData p))"

definition addOnsTotal :: "BookPage \<Rightarrow> number" where
  "addOnsTotal p =
     foldl (\<lambda>total addonId.
              numberAdd total
                (orZero (map_option addon_price (find (\<lambda>a. addon_id a = addonId) (addOns p)))))
           (ofInt 0) (selectedAddOns p)"

definition addOnsDuration :: "BookPage \<Rightarrow> number" where
  "addOnsDuration p =
     foldl (\<lambda>total addonId.
              numberAdd total
                (orZero (map_option addon_duration (find (\<lambda>a. addon_id a = addonId) (addOns p)))))
           (ofInt 0) (selectedAddOns p)"


definition totalDuration :: "BookPage \<Rightarrow> number" where
  "totalDuration p = numberAdd (serviceDuration p) (addOnsDuration p)"

subsection \<open>Selection handlers\<close>

definition handleServiceSelect :: "jstring \<Rightarrow> BookPage \<Rightarrow> BookPage" where
  "handleServiceSelect serviceId p = p\<lparr>selectedService := Some serviceId\<rparr>"

definition handleAddOnToggle :: "jstring \<Rightarrow> BookPage \<Rightarrow> BookPage" where
  "handleAddOnToggle addonId p =
     p\<lparr>selectedAddOns :=
         (let prev = selectedAddOns p
          in if addonId \<in> set prev
             then filter (\<lambda>i. i \<noteq> addonId) prev
             else prev @ [addonId])\<rparr>"

definition handleDateSelect :: "jstring \<Rightarrow> BookPage \<Rightarrow> BookPage" where
  "handleDateSelect date p = p\<lparr>selectedDate := Some date, selectedTimeSlot := None\<rparr>"

definition handleTimeSlotSelect :: "TimeSlot \<Rightarrow> BookPage \<Rightarrow> BookPage" where
  "handleTimeSlotSelect slot p = p\<lparr>selectedTimeSlot := Some slot\<rparr>"

subsection \<open>Built-in string operations\<close>

text \<open>
  \<^verbatim>\<open>String.prototype.trim\<close> strips the code units of the productions WhiteSpace and
  LineTerminator from both ends; the class \<^verbatim>\<open>\s\<close> of a regular expression is the same
  set. \<^verbatim>\<open>\D\<close> is every code unit but the ASCII digits.
\<close>

definition isWhiteSpace :: "code_unit \<Rightarrow> bool" where
  "isWhiteSpace c \<longleftrightarrow>
     c = 0x09 \<or> c = 0x0A \<or> c = 0x0B \<or> c = 0x0C \<or> c = 0x0D \<or> c = 0x20 \<or> c = 0xA0
     \<or> c = 0x1680 \<or> (0x2000 \<le> c \<and> c \<le> 0x200A) \<or> c = 0x2028 \<or> c = 0x2029
     \<or> c = 0x202F \<or> c = 0x205F \<or> c = 0x3000 \<or> c = 0xFEFF"

definition isDigit :: "code_unit \<Rightarrow> bool" where
  "isDigit c \<longleftrightarrow> 0x30 \<le> c \<and> c \<le> 0x39"

definition trim :: "jstring \<Rightarrow> jstring" where
  "trim s = rev (dropWhile isWhiteSpace (rev (dropWhile isWhiteSpace s)))"

text \<open>
  Regular expressions without captures, and \<^verbatim>\<open>RegExp.prototype.test\<close> for a pattern
  anchored by \<^verbatim>\<open>^\<close> and \<^verbatim>\<open>$\<close> (no flags): the whole string has to match. The match is
  decided by derivatives.
\<close>

datatype rexp =
    Nothing
  | Epsilon
  | Chars "code_unit \<Rightarrow> bool"
  | Choice rexp rexp
  | Concat rexp rexp
  | Repeat rexp

definition OneOrMore :: "rexp \<Rightarrow> rexp" where
  "OneOrMore r = Concat r (Repeat r)"

fun nullable :: "rexp \<Rightarrow> bool" where
  "nullable Nothing = False"
| "nullable Epsilon = True"
| "nullable (Chars P) = False"
| "nullable (Choice r s) = (nullable r \<or> nullable s)"
| "nullable (Concat r s) = (nullable r \<and> nullable s)"
| "nullable (Repeat r) = True"

fun deriv :: "code_unit \<Rightarrow> rexp \<Rightarrow> rexp" where
  "deriv c Nothing = Nothing"
| "deriv c Epsilon = Nothing"
| "deriv c (Chars P) = (if P c then Epsilon else Nothing)"
| "deriv c (Choice r s) = Choice (deriv c r) (deriv c s)"
| "deriv c (Concat r s) =
     (if nullable r then Choice (Concat (deriv c r) s) (deriv c s) else Concat (deriv c r) s)"
| "deriv c (Repeat r) = Concat (deriv c r) (Repeat r)"

fun test :: "rexp \<Rightarrow> jstring \<Rightarrow> bool" where
  "test r [] = nullable r"
| "test r (c # cs) = test (deriv c r) cs"

text \<open>The declarative reading of a pattern, against which \<open>test\<close> is checked.\<close>

inductive matches :: "rexp \<Rightarrow> jstring \<Rightarrow> bool" where
  m_Epsilon: "matches Epsilon []"
| m_Chars: "P c \<Longrightarrow> matches (Chars P) [c]"
| m_ChoiceL: "matches r w \<Longrightarrow> matches (Choice r s) w"
| m_ChoiceR: "matches s w \<Longrightarrow> matches (Choice r s) w"
| m_Concat: "matches r u \<Longrightarrow> matches s v \<Longrightarrow> matches (Concat r s) (u @ v)"
| m_RepeatNil: "matches (Repeat r) []"
| m_RepeatStep: "matches r u \<Longrightarrow> matches (Repeat r) v \<Longrightarrow> matches (Repeat r) (u @ v)"

text \<open>\<^verbatim>\<open>[^\s@]\<close>, and the pattern \<^verbatim>\<open>/^[^\s@]+@[^\s@]+\.[^\s@]+$/\<close>.\<close>

definition notSpaceOrAt :: "code_unit \<Rightarrow> bool" where
  "notSpaceOrAt c \<longleftrightarrow> \<not> isWhiteSpace c \<and> c \<noteq> 0x40"

definition emailRegex :: rexp where
  "emailRegex =
     Concat (OneOrMore (Chars notSpaceOrAt))
       (Concat (Chars (\<lambda>c. c = 0x40))
         (Concat (OneOrMore (Chars notSpaceOrAt))
           (Concat (Chars (\<lambda>c. c = 0x2E))
             (OneOrMore (Chars notSpaceOrAt)))))"

subsection \<open>Customer details and navigation\<close>

text \<open>
  An object used as \<^verbatim>\<open>Record<string, string>\<close>: an association list with one pair per
  own key, in insertion order. \<open>setProp\<close> is the assignment \<^verbatim>\<open>o[k] = v\<close>, \<open>keys\<close> is
  \<^verbatim>\<open>Object.keys\<close>.
\<close>

fun setProp :: "jstring \<Rightarrow> jstring \<Rightarrow> (jstring \<times> jstring) list \<Rightarrow> (jstring \<times> jstring) list" where
  "setProp k v [] = [(k, v)]"
| "setProp k v ((k', v') # al) = (if k = k' then (k, v) # al else (k', v') # setProp k v al)"

definition keys :: "(jstring \<times> jstring) list \<Rightarrow> jstring list" where
  "keys al = map fst al"

definition validateCustomerInfo :: "BookPage \<Rightarrow> bool \<times> BookPage" where
  "validateCustomerInfo p =
     (let errors = [];
          errors =
            (if trim (customerName p) = [] then
               setProp (js ''name'') (js ''Name is required'') errors
             else if length (trim (customerName p)) < 2 then
               setProp (js ''name'') (js ''Name must be at least 2 characters'') errors
             else errors);
          errors =
            (if trim (customerEmail p) = [] then
               setProp (js ''email'') (js ''Email is required'') errors
             else if \<not> test emailRegex (customerEmail p) then
               setProp (js ''email'') (js ''Please enter a valid email address'') errors
             else errors);
          phoneDigits = filter isDigit (customerPhone p);
          errors =
            (if trim (customerPhone p) = [] then
               setProp (js ''phone'') (js ''Phone number is required'') errors
             else if length phoneDigits \<noteq> 10 then
               setProp (js ''phone'') (js ''Please enter a valid 10-digit phone number'') errors
             else errors);
          errors =
            (if trim (customerAddress p) = [] then
               setProp (js ''address'') (js ''Service address is required'') errors
             else if length (trim (customerAddress p)) < 10 then
               setProp (js ''address'') (js ''Please enter a complete address'') errors
             else errors)
      in (length (keys errors) = 0, p\<lparr>formErrors := errors\<rparr>))"

definition handleContinue :: "BookPage \<Rightarrow> BookPage" where
  "handleContinue p =
     (if currentStep p = 1 \<and> truthy (selectedService p) then p\<lparr>currentStep := 2\<rparr>
      else if currentStep p = 2 \<and> truthy (selectedDate p) \<and> selectedTimeSlot p \<noteq> None then
        p\<lparr>currentStep := 3\<rparr>
      else if currentStep p = 3 then
        (case validateCustomerInfo p of
           (ok, p') \<Rightarrow> if ok then p'\<lparr>currentStep := 4\<rparr> else p')
      else p)"

definition handleBack :: "BookPage \<Rightarrow> BookPage" where
  "handleBack p = p\<lparr>currentStep := currentStep p - 1\<rparr>"

text \<open>
  The \<^verbatim>\<open>onChange\<close> handlers of the four validated inputs store the typed value and blank
  the field's error message when one is shown.
\<close>

definition clearError :: "jstring \<Rightarrow> BookPage \<Rightarrow> BookPage" where
  "clearError k p =
     (if truthy (map_of (formErrors p) k) then p\<lparr>formErrors := setProp k [] (formErrors p)\<rparr>
      else p)"

subsection \<open>Submission\<close>

text \<open>The body of the POST to \<^verbatim>\<open>/api/bookings\<close> built by \<^verbatim>\<open>handleSubmitBooking\<close>.\<close>

record BookingRequest =
  rq_serviceId :: jstring
  rq_addOnIds :: "jstring list"
  rq_startAtUtc :: int
  rq_endAtUtc :: int
  rq_customerName :: jstring
  rq_email :: jstring
  rq_phone :: jstring
  rq_address :: jstring
  rq_notes :: "jstring option"

definition bookingData :: "BookPage \<Rightarrow> BookingRequest option" where
  "bookingData p =
     (case (selectedService p, selectedTimeSlot p) of
        (Some service, Some slot) \<Rightarrow>
          if service = [] \<or> \<not> truthy (selectedDate p) then None
          else Some \<lparr> rq_serviceId = service,
                      rq_addOnIds = selectedAddOns p,
                      rq_startAtUtc = startUtc slot,
                      rq_endAtUtc = endUtc slot,
                      rq_customerName = trim (customerName p),
                      rq_email = trim (customerEmail p),
                      rq_phone = trim (customerPhone p),
                      rq_address = trim (customerAddress p),
                      rq_notes = (if trim (customerNotes p) = [] then None
                                  else Some (trim (customerNotes p))) \<rparr>
      | _ \<Rightarrow> None)"

subsection \<open>Everything that changes the form\<close>

text \<open>
  A constructor per user action or completed fetch; \<open>react\<close> applies the handler that
  the page binds to it. A page state is reachable when it is \<open>run evs\<close> for some \<open>evs\<close>.
\<close>

datatype event =
    ServiceSelect jstring
  | AddOnToggle jstring
  | DateSelect jstring
  | TimeSlotSelect TimeSlot
  | NameChange jstring
  | EmailChange jstring
  | PhoneChange jstring
  | AddressChange jstring
  | NotesChange jstring
  | Continue
  | Back
  | CatalogFetched "APIService list" "APIAddOn list"
  | SlotsFetched "TimeSlot list"

fun react :: "BookPage \<Rightarrow> event \<Rightarrow> BookPage" where
  "react p (ServiceSelect i) = handleServiceSelect i p"
| "react p (AddOnToggle i) = handleAddOnToggle i p"
| "react p (DateSelect d) = handleDateSelect d p"
| "react p (TimeSlotSelect s) = handleTimeSlotSelect s p"
| "react p (NameChange v) = clearError (js ''name'') (p\<lparr>customerName := v\<rparr>)"
| "react p (EmailChange v) = clearError (js ''email'') (p\<lparr>customerEmail := v\<rparr>)"
| "react p (PhoneChange v) = clearError (js ''phone'') (p\<lparr>customerPhone := v\<rparr>)"
| "react p (AddressChange v) = clearError (js ''address'') (p\<lparr>customerAddress := v\<rparr>)"
| "react p (NotesChange v) = p\<lparr>customerNotes := v\<rparr>"
| "react p Continue = handleContinue p"
| "react p Back = handleBack p"
| "react p (CatalogFetched ss as) =
     p\<lparr>services := map formattedService ss, addOns := map formattedAddOn as\<rparr>"
| "react p (SlotsFetched sl) = p\<lparr>availableSlots := sl\<rparr>"

definition run :: "event list \<Rightarrow> BookPage" where
  "run evs = foldl react initialPage evs"

section \<open>Dates\<close>

subsection \<open>Time values and the civil calendar\<close>

text \<open>
  A \<^verbatim>\<open>Date\<close> holds a time value: milliseconds since 1970-01-01T00:00:00Z. \<open>Day\<close>,
  \<open>TimeWithinDay\<close>, \<open>WeekDay\<close>, \<open>MakeDay\<close> and \<open>MakeDate\<close> are the abstract operations of
  ECMAScript; year, month (0 = January) and day of the month of a day number are computed
  in closed form over the proleptic Gregorian calendar, by eras of 400 years that begin
  on 1 March. The range limit of time values (\<^verbatim>\<open>TimeClip\<close>) is not modelled.
\<close>

definition msPerDay :: int where
  "msPerDay = 86400000"

definition msPerMinute :: int where
  "msPerMinute = 60000"

definition Day :: "int \<Rightarrow> int" where
  "Day t = t div msPerDay"

definition TimeWithinDay :: "int \<Rightarrow> int" where
  "TimeWithinDay t = t mod msPerDay"

definition WeekDay :: "int \<Rightarrow> int" where
  "WeekDay t = (Day t + 4) mod 7"

definition civilFromDays :: "int \<Rightarrow> int \<times> int \<times> int" where
  "civilFromDays z =
     (let z = z + 719468;
          era = z div 146097;
          doe = z - era * 146097;
          yoe = (doe - doe div 1460 + doe div 36524 - doe div 146096) div 365;
          doy = doe - (365 * yoe + yoe div 4 - yoe div 100);
          mp = (5 * doy + 2) div 153;
          d = doy - (153 * mp + 2) div 5 + 1;
          m = (if mp < 10 then mp + 2 else mp - 10);
          y = yoe + era * 400 + (if m \<le> 1 then 1 else 0)
      in (y, m, d))"

definition daysFromCivil :: "int \<Rightarrow> int \<Rightarrow> int \<Rightarrow> int" where
  "daysFromCivil year month date =
     (let y = (if month \<le> 1 then year - 1 else year);
          era = y div 400;
          yoe = y - era * 400;
          mp = (if month \<le> 1 then month + 10 else month - 2);
          doy = (153 * mp + 2) div 5 + date - 1;
          doe = yoe * 365 + yoe div 4 - yoe div 100 + doy
      in era * 146097 + doe - 719468)"

definition YearFromTime :: "int \<Rightarrow> int" where
  "YearFromTime t = fst (civilFromDays (Day t))"

definition MonthFromTime :: "int \<Rightarrow> int" where
  "MonthFromTime t = fst (snd (civilFromDays (Day t)))"

definition DateFromTime :: "int \<Rightarrow> int" where
  "DateFromTime t = snd (snd (civilFromDays (Day t)))"

definition MakeDay :: "int \<Rightarrow> int \<Rightarrow> int \<Rightarrow> int" where
  "MakeDay year month date =
     daysFromCivil (year + month div 12) (month mod 12) 1 + date - 1"

definition MakeDate :: "int \<Rightarrow> int \<Rightarrow> int" where
  "MakeDate day time = day * msPerDay + time"

text \<open>
  The time zone of the environment: \<open>localTZA t True\<close> is the offset in milliseconds in
  force at the UTC time value \<open>t\<close>, and \<open>localTZA t False\<close> is the offset for the local
  time value \<open>t\<close>.
\<close>

record TimeZone =
  localTZA :: "int \<Rightarrow> bool \<Rightarrow> int"

definition LocalTime :: "TimeZone \<Rightarrow> int \<Rightarrow> int" where
  "LocalTime tz t = t + localTZA tz t True"

definition UTC :: "TimeZone \<Rightarrow> int \<Rightarrow> int" where
  "UTC tz t = t - localTZA tz t False"

definition fixedOffset :: "int \<Rightarrow> TimeZone" where
  "fixedOffset minutes = \<lparr> localTZA = (\<lambda>t isUTC. minutes * msPerMinute) \<rparr>"

subsection \<open>Methods of \<^verbatim>\<open>Date\<close> used by the date picker\<close>

definition getDate :: "TimeZone \<Rightarrow> int \<Rightarrow> int" where
  "getDate tz t = DateFromTime (LocalTime tz t)"

definition setDate :: "TimeZone \<Rightarrow> int \<Rightarrow> int \<Rightarrow> int" where
  "setDate tz date tv =
     (let t = LocalTime tz tv;
          newDate = MakeDate (MakeDay (YearFromTime t) (MonthFromTime t) date) (TimeWithinDay t)
      in UTC tz newDate)"

definition digit :: "int \<Rightarrow> code_unit" where
  "digit n = 0x30 + nat (n mod 10)"

definition pad2 :: "int \<Rightarrow> jstring" where
  "pad2 n = [digit (n div 10), digit n]"

definition pad4 :: "int \<Rightarrow> jstring" where
  "pad4 n = [digit (n div 1000), digit (n div 100), digit (n div 10), digit n]"

text \<open>
  \<^verbatim>\<open>toISOString().split('T')[0]\<close>: the UTC calendar date. Years outside 0..9999 are
  written with a sign and six digits.
\<close>

definition isoDate :: "int \<Rightarrow> jstring" where
  "isoDate tv =
     (let y = YearFromTime tv;
          year = (if 0 \<le> y \<and> y \<le> 9999 then pad4 y
                  else (if y < 0 then js ''-'' else js ''+'') @ pad2 (\<bar>y\<bar> div 10000) @ pad4 \<bar>y\<bar>)
      in year @ js ''-'' @ pad2 (MonthFromTime tv + 1) @ js ''-'' @ pad2 (DateFromTime tv))"

text \<open>
  \<^verbatim>\<open>toLocaleDateString('en-US', ...)\<close> for the two option sets of the date picker: the
  short weekday name and the short month name with the day of the month, both of the
  local date.
\<close>

definition weekdayShort :: "int \<Rightarrow> jstring" where
  "weekdayShort wd =
     [js ''Sun'', js ''Mon'', js ''Tue'', js ''Wed'', js ''Thu'', js ''Fri'', js ''Sat''] ! nat wd"

definition monthShort :: "int \<Rightarrow> jstring" where
  "monthShort m =
     [js ''Jan'', js ''Feb'', js ''Mar'', js ''Apr'', js ''May'', js ''Jun'',
      js ''Jul'', js ''Aug'', js ''Sep'', js ''Oct'', js ''Nov'', js ''Dec''] ! nat m"

definition numeric :: "int \<Rightarrow> jstring" where
  "numeric n = (if n < 10 then [digit n] else pad2 n)"

definition localeWeekday :: "TimeZone \<Rightarrow> int \<Rightarrow> jstring" where
  "localeWeekday tz tv = weekdayShort (WeekDay (LocalTime tz tv))"

definition localeMonthDay :: "TimeZone \<Rightarrow> int \<Rightarrow> jstring" where
  "localeMonthDay tz tv =
     monthShort (MonthFromTime (LocalTime tz tv)) @ js '' '' @ numeric (DateFromTime (LocalTime tz tv))"

subsection \<open>The date picker\<close>

record DateEntry =
  date :: jstring
  formatted :: jstring
  dayName :: jstring

text \<open>
  \<open>today\<close> is the time value of \<^verbatim>\<open>new Date()\<close>, \<open>tz\<close> the time zone of the browser. The
  loop runs \<open>i\<close> from 1 to 30.
\<close>

definition generateAvailableDates :: "TimeZone \<Rightarrow> int \<Rightarrow> DateEntry list" where
  "generateAvailableDates tz today =
     map (\<lambda>i. let date = setDate tz (getDate tz today + i) today
              in \<lparr> date = isoDate date,
                   formatted = localeMonthDay tz date,
                   dayName = localeWeekday tz date \<rparr>)
         [1..30]"

section \<open>The confirmation page\<close>

text \<open>
  The \<^verbatim>\<open>Booking\<close> that \<^verbatim>\<open>BookingConfirmationPage\<close> receives from
  \<^verbatim>\<open>/api/bookings/:id\<close>. The nested \<^verbatim>\<open>service\<close> and \<^verbatim>\<open>addOns\<close> objects are only
  rendered by name and are left out; instants are epoch milliseconds as before.
\<close>

record Booking =
  bk_id :: jstring
  bk_customerName :: jstring
  bk_email :: jstring
  bk_phone :: jstring
  bk_address :: jstring
  bk_notes :: "jstring option"
  bk_startAtUtc :: int
  bk_endAtUtc :: int
  bk_priceCents :: int
  bk_status :: jstring


definition startDate :: "Booking \<Rightarrow> int" where
  "startDate booking = bk_startAtUtc booking"

definition endDate :: "Booking \<Rightarrow> int" where
  "endDate booking = bk_endAtUtc booking"

section \<open>Availability engine and reservation manager\<close>

text \<open>
  The form and the confirmation page call \<^verbatim>\<open>/api/services\<close>, \<^verbatim>\<open>/api/availability\<close>,
  \<^verbatim>\<open>/api/bookings\<close> and \<^verbatim>\<open>/api/bookings/:id\<close>. The handlers of these routes are not
  among the sources; every definition of this section follows sections 3 to 6 of the
  specification and says so.
\<close>

subsection \<open>Catalog, policy and stored bookings\<close>

text \<open>
  Modelled from the spec: the catalog of section 3 (its provider is not among the
  sources), services and add-ons in the shape \<^verbatim>\<open>/api/services\<close> delivers them.
\<close>

record Catalog =
  cat_services :: "APIService list"
  cat_addOns :: "APIAddOn list"

text \<open>
  Modelled from the spec: the \<^verbatim>\<open>CalendarPolicy\<close> of section 3, which is not among the
  sources. Operating hours are given per weekday (0 = Sunday) as opening and closing
  time in minutes after local midnight, \<open>None\<close> for a closed day; granularity, buffer and
  lead time are minutes; the time zone interprets the local hours.
\<close>

record CalendarPolicy =
  operatingHours :: "int \<Rightarrow> (int \<times> int) option"
  slotGranularity :: int
  bufferBetweenJobs :: int
  minimumLeadTime :: int
  timeZone :: TimeZone

text \<open>
  Modelled from the spec: the status of a booking (section 3), whose declaration is not
  among the sources.
\<close>

datatype BookingStatus = Confirmed | Cancelled

text \<open>
  Modelled from the spec: the persisted \<^verbatim>\<open>Booking\<close> of section 3; the booking store is
  not among the sources. The identifier is the number from which the store derives the
  id string.
\<close>

record StoredBooking =
  sb_id :: nat
  sb_serviceId :: jstring
  sb_addOnIds :: "jstring list"
  sb_startAtUtc :: int
  sb_endAtUtc :: int
  sb_priceCents :: int
  sb_status :: BookingStatus
  sb_customerName :: jstring
  sb_email :: jstring
  sb_phone :: jstring
  sb_address :: jstring
  sb_notes :: "jstring option"
  sb_createdAt :: int

subsection \<open>Availability engine\<close>

text \<open>
  Modelled from the spec: the conversion of a wall-clock time of the policy's time zone
  into an instant (section 4.1, step 1, and section 9); the engine is not among the
  sources. A calendar day is its day number since 1970-01-01, the time of day is in
  minutes after local midnight.
\<close>

definition wallClock :: "TimeZone \<Rightarrow> int \<Rightarrow> int \<Rightarrow> int" where
  "wallClock tz day minutes = UTC tz (MakeDate day (minutes * msPerMinute))"

text \<open>
  Modelled from the spec: the calendar day of an instant in the policy's time zone
  (section 4.1, step 1); the engine is not among the sources.
\<close>

definition localDay :: "TimeZone \<Rightarrow> int \<Rightarrow> int" where
  "localDay tz t = Day (LocalTime tz t)"

text \<open>
  Modelled from the spec: section 4.1, step 1, the day's operating window; the engine is
  not among the sources. The window is the pair of the instants at which the day opens
  and closes, \<open>None\<close> on a weekday marked closed.
\<close>

definition operatingWindow :: "CalendarPolicy \<Rightarrow> int \<Rightarrow> (int \<times> int) option" where
  "operatingWindow policy day =
     (case operatingHours policy (WeekDay (MakeDate day 0)) of
        None \<Rightarrow> None
      | Some (opens, closes) \<Rightarrow>
          Some (wallClock (timeZone policy) day opens, wallClock (timeZone policy) day closes))"

text \<open>
  Modelled from the spec: \<^emph>\<open>now + minimum lead time\<close> of section 4.1, steps 1 and 2; the
  engine is not among the sources.
\<close>

definition earliestStart :: "CalendarPolicy \<Rightarrow> int \<Rightarrow> int" where
  "earliestStart policy now = now + minimumLeadTime policy * msPerMinute"

text \<open>
  Modelled from the spec: \<^emph>\<open>rounded up to the next granularity boundary\<close> (section 4.1,
  step 2); the engine is not among the sources. Boundaries are the multiples of the step.
\<close>

definition roundUp :: "int \<Rightarrow> int \<Rightarrow> int" where
  "roundUp step t = - ((- t) div step) * step"

text \<open>
  Modelled from the spec: section 4.1, step 2, the loop over candidate starts; the engine
  is not among the sources. Candidates lie one step apart, from the first one on, while
  they are before the closing time. A step that is not positive gives no candidate.
\<close>

function candidateStarts :: "int \<Rightarrow> int \<Rightarrow> int \<Rightarrow> int list" where
  "candidateStarts step start closes =
     (if 0 < step \<and> start < closes then start # candidateStarts step (start + step) closes
      else [])"
  by pat_completeness auto
termination
  by (relation "measure (\<lambda>(step, start, closes). nat (closes - start))") auto

declare candidateStarts.simps [simp del]

text \<open>
  Modelled from the spec: section 4.1, steps 1 and 2; the engine is not among the
  sources. No candidate on a closed weekday or on a date that is in the past relative to
  now plus the lead time; otherwise the candidates start at the later of the window's
  opening and the rounded earliest permitted start.
\<close>

definition candidates :: "int \<Rightarrow> CalendarPolicy \<Rightarrow> int \<Rightarrow> int list" where
  "candidates now policy day =
     (case operatingWindow policy day of
        None \<Rightarrow> []
      | Some (opens, closes) \<Rightarrow>
          if day < localDay (timeZone policy) (earliestStart policy now) then []
          else
            let step = slotGranularity policy * msPerMinute
            in candidateStarts step (max opens (roundUp step (earliestStart policy now))) closes)"

text \<open>
  Modelled from the spec: section 4.1, step 3,
  \<^verbatim>\<open>candidateEnd = start + requestedDurationMinutes\<close>; the engine is not among the sources.
\<close>

definition candidateEnd :: "int \<Rightarrow> int \<Rightarrow> int" where
  "candidateEnd start requestedDurationMinutes = start + requestedDurationMinutes * msPerMinute"

text \<open>
  Modelled from the spec: section 4.1, step 3, the rejection of a candidate whose end
  exceeds the closing time; the engine is not among the sources.
\<close>

definition fitsWindow :: "CalendarPolicy \<Rightarrow> int \<Rightarrow> int \<Rightarrow> int \<Rightarrow> bool" where
  "fitsWindow policy day requestedDurationMinutes start =
     (case operatingWindow policy day of
        None \<Rightarrow> False
      | Some (opens, closes) \<Rightarrow> candidateEnd start requestedDurationMinutes \<le> closes)"

text \<open>
  Modelled from the spec: section 4.1, step 4, the overlap test against one booking; the
  engine is not among the sources. The candidate is \<^emph>\<open>tested against each existing
  booking's interval expanded by the full buffer\<close>: the interval of a Confirmed booking
  from 10:00 to 11:30 is, with a buffer of 15 minutes, expanded to 09:45 to 11:45
  (section 8), and the candidate conflicts when its own interval has an instant in
  common with the expanded one. This keeps the whole buffer idle between two jobs
  (glossary). Intervals are half-open, so that touching ones do not meet; the buffer is
  given in minutes, instants in milliseconds.
\<close>

definition conflicts :: "CalendarPolicy \<Rightarrow> int \<Rightarrow> int \<Rightarrow> StoredBooking \<Rightarrow> bool" where
  "conflicts policy start end booking \<longleftrightarrow>
     sb_status booking = Confirmed
     \<and> start < sb_endAtUtc booking + bufferBetweenJobs policy * msPerMinute
     \<and> sb_startAtUtc booking - bufferBetweenJobs policy * msPerMinute < end"

text \<open>
  Modelled from the spec: section 4.1, step 4, \<^emph>\<open>bookable\<close>: no existing booking
  conflicts; the engine is not among the sources.
\<close>

definition bookable :: "CalendarPolicy \<Rightarrow> StoredBooking list \<Rightarrow> int \<Rightarrow> int \<Rightarrow> bool" where
  "bookable policy existingBookings start end \<longleftrightarrow>
     \<not> list_ex (conflicts policy start end) existingBookings"

text \<open>
  Modelled from the spec: section 4.1, \<^verbatim>\<open>computeSlots\<close>, the handler behind
  \<^verbatim>\<open>/api/availability\<close>, which is not among the sources. The clock reading \<open>now\<close> is an
  argument. Survivors are emitted in the order of generation, which is ascending.
\<close>

definition computeSlots ::
  "int \<Rightarrow> CalendarPolicy \<Rightarrow> int \<Rightarrow> int \<Rightarrow> StoredBooking list \<Rightarrow> TimeSlot list" where
  "computeSlots now policy day requestedDurationMinutes existingBookings =
     map (\<lambda>start. \<lparr> startUtc = start, endUtc = candidateEnd start requestedDurationMinutes \<rparr>)
       (filter (\<lambda>start. bookable policy existingBookings start
                           (candidateEnd start requestedDurationMinutes))
          (filter (fitsWindow policy day requestedDurationMinutes)
             (candidates now policy day)))"

subsection \<open>Reservation manager\<close>

text \<open>
  Modelled from the spec: the error kinds of section 7; the reservation manager is not
  among the sources.
\<close>

datatype RejectionReason =
    UnknownService
  | UnknownAddOn
  | InvalidSlot
  | SlotNoLongerAvailable
  | StoreUnavailable

text \<open>
  Modelled from the spec: section 4.2, step 1, the lookup of the service; the reservation
  manager is not among the sources.
\<close>

definition resolveService :: "Catalog \<Rightarrow> jstring \<Rightarrow> APIService option" where
  "resolveService catalog serviceId = find (\<lambda>s. api_svc_id s = serviceId) (cat_services catalog)"

text \<open>
  Modelled from the spec: section 4.2, step 1, the lookup of the add-ons; the reservation
  manager is not among the sources. One missing id fails the lookup.
\<close>

definition resolveAddOns :: "Catalog \<Rightarrow> jstring list \<Rightarrow> APIAddOn list option" where
  "resolveAddOns catalog ids =
     those (map (\<lambda>i. find (\<lambda>a. api_addon_id a = i) (cat_addOns catalog)) ids)"

text \<open>
  Modelled from the spec: section 4.2, step 5, \<^emph>\<open>outside operating hours\<close>; the
  reservation manager is not among the sources. The interval has to lie in the operating
  window of the local day of its start.
\<close>

definition withinOperatingHours :: "CalendarPolicy \<Rightarrow> int \<Rightarrow> int \<Rightarrow> bool" where
  "withinOperatingHours policy start end =
     (case operatingWindow policy (localDay (timeZone policy) start) of
        None \<Rightarrow> False
      | Some (opens, closes) \<Rightarrow> opens \<le> start \<and> end \<le> closes)"

text \<open>
  Modelled from the spec: section 4.2, step 6, a new unique id: one more than every id
  in the store. The reservation manager is not among the sources.
\<close>

definition newId :: "StoredBooking list \<Rightarrow> nat" where
  "newId store = Suc (fold max (map sb_id store) 0)"

text \<open>
  Modelled from the spec: section 4.2, \<^verbatim>\<open>reserve\<close>, the handler behind
  \<^verbatim>\<open>/api/bookings\<close>, which is not among the sources; steps 1 to 6 in their order. The
  store is the list of all bookings; the overlap check of step 4 runs against it as it is
  at the call. The request is the body the form posts; the end of the booking is derived
  in step 3, the \<^verbatim>\<open>endAtUtc\<close> of the request is not consulted.
\<close>

definition reserve ::
  "int \<Rightarrow> CalendarPolicy \<Rightarrow> Catalog \<Rightarrow> BookingRequest \<Rightarrow> StoredBooking list
     \<Rightarrow> (RejectionReason + StoredBooking) \<times> StoredBooking list" where
  "reserve now policy catalog request store =
     (case resolveService catalog (rq_serviceId request) of
        None \<Rightarrow> (Inl UnknownService, store)
      | Some service \<Rightarrow>
          (case resolveAddOns catalog (rq_addOnIds request) of
             None \<Rightarrow> (Inl UnknownAddOn, store)
           | Some selected \<Rightarrow>
               let minutes = api_svc_duration service + sum_list (map api_addon_duration selected);
                   priceCents = api_svc_cents service + sum_list (map api_addon_cents selected);
                   startAtUtc = rq_startAtUtc request;
                   endAtUtc = startAtUtc + minutes * msPerMinute
               in if \<not> bookable policy store startAtUtc endAtUtc then
                    (Inl SlotNoLongerAvailable, store)
                  else if startAtUtc < earliestStart policy now
                          \<or> \<not> withinOperatingHours policy startAtUtc endAtUtc then
                    (Inl InvalidSlot, store)
                  else
                    let booking =
                          \<lparr> sb_id = newId store,
                            sb_serviceId = rq_serviceId request,
                            sb_addOnIds = rq_addOnIds request,
                            sb_startAtUtc = startAtUtc,
                            sb_endAtUtc = endAtUtc,
                            sb_priceCents = priceCents,
                            sb_status = Confirmed,
                            sb_customerName = rq_customerName request,
                            sb_email = rq_email request,
                            sb_phone = rq_phone request,
                            sb_address = rq_address request,
                            sb_notes = rq_notes request,
                            sb_createdAt = now \<rparr>
                    in (Inr booking, store @ [booking])))"


subsection \<open>Catalog management and booking lookup\<close>





text \<open>
  Modelled from the spec: fetch-by-id of the booking store (section 6), which is not
  among the sources.
\<close>

definition fetchById :: "StoredBooking list \<Rightarrow> nat \<Rightarrow> StoredBooking option" where
  "fetchById store i = find (\<lambda>b. sb_id b = i) store"



text \<open>
  Modelled from the spec: the state the server keeps (section 3, ownership), catalog and
  booking store; neither is among the sources.
\<close>

record World =
  catalog :: Catalog
  bookings :: "StoredBooking list"



section \<open>Example data\<close>

subsection \<open>A session of the booking form\<close>

text \<open>Catalog entries as delivered.\<close>

definition apiBasic :: APIService where
  "apiBasic = \<lparr> api_svc_id = js ''svc-basic'', api_svc_name = js ''Basic Wash'',
     api_svc_duration = 60, api_svc_cents = 4999 \<rparr>"

definition apiPremium :: APIService where
  "apiPremium = \<lparr> api_svc_id = js ''svc-premium'', api_svc_name = js ''Premium Detail'',
     api_svc_duration = 120, api_svc_cents = 14999 \<rparr>"

definition apiWax :: APIAddOn where
  "apiWax = \<lparr> api_addon_id = js ''wax'', api_addon_name = js ''Wax'',
     api_addon_duration = 30, api_addon_cents = 2550 \<rparr>"

definition apiPet :: APIAddOn where
  "apiPet = \<lparr> api_addon_id = js ''pet'', api_addon_name = js ''Pet hair removal'',
     api_addon_duration = 15, api_addon_cents = 2000 \<rparr>"

definition demoEvents :: "event list" where
  "demoEvents =
     [CatalogFetched [apiBasic, apiPremium] [apiWax, apiPet],
      ServiceSelect (js ''svc-premium''),
      AddOnToggle (js ''wax''), AddOnToggle (js ''pet''), AddOnToggle (js ''wax''),
      AddOnToggle (js ''engine''),
      DateSelect (js ''2026-01-05''),
      TimeSlotSelect \<lparr> startUtc = 1767621600000, endUtc = 1767628800000 \<rparr>]"


definition demoCustomer :: BookPage where
  "demoCustomer = initialPage\<lparr> currentStep := 3,
     customerName := js ''  Martin Heath '',
     customerEmail := js ''martin@seastreet.example'',
     customerPhone := js ''(508) 555-0142'',
     customerAddress := js ''12 Sea Street, Hyannis'' \<rparr>"

subsection \<open>Calendar, catalog and store\<close>

text \<open>
  A browser and a business in US Eastern Standard Time (UTC-5) and a browser in Central
  European Time (UTC+1). \<open>eveningNow\<close> is 2026-01-02T04:00:00Z, 23:00 on 1 January in
  US Eastern time; \<open>afterMidnightNow\<close> is 2026-01-01T23:30:00Z, 00:30 on 2 January in
  Central European time. Day 20458 is Monday, 5 January 2026.
\<close>

definition usEastern :: TimeZone where
  "usEastern = fixedOffset (- 300)"

definition centralEuropean :: TimeZone where
  "centralEuropean = fixedOffset 60"

definition eveningNow :: int where
  "eveningNow = 1767326400000"

definition afterMidnightNow :: int where
  "afterMidnightNow = 1767310200000"

text \<open>
  US Eastern time with the daylight-saving rules of 2026: UTC-4 from 8 March, 07:00 UTC
  (03:00 local), to 1 November, 06:00 UTC (02:00 local), UTC-5 otherwise. \<open>octoberNow\<close>
  is 2026-10-20T23:30:00Z, 19:30 on 20 October local time.
\<close>

definition usEastern2026 :: TimeZone where
  "usEastern2026 =
     \<lparr> localTZA = (\<lambda>t isUTC.
         if isUTC then
           (if 1772953200000 \<le> t \<and> t < 1793512800000 then - 240 * msPerMinute
            else - 300 * msPerMinute)
         else
           (if 1772938800000 \<le> t \<and> t < 1793498400000 then - 240 * msPerMinute
            else - 300 * msPerMinute)) \<rparr>"

definition octoberNow :: int where
  "octoberNow = 1792539000000"

definition monday :: int where
  "monday = 20458"

text \<open>
  The policy of the examples of the specification: Monday to Saturday 9:00 to 17:00,
  candidates every 30 minutes, a buffer of 15 minutes, and two hours of lead time. The
  other two policies differ in their granularity of 15 and of 5 minutes.
\<close>

definition examplePolicy :: CalendarPolicy where
  "examplePolicy =
     \<lparr> operatingHours = (\<lambda>wd. if wd = 0 then None else Some (9 * 60, 17 * 60)),
       slotGranularity = 30,
       bufferBetweenJobs = 15,
       minimumLeadTime = 120,
       timeZone = usEastern \<rparr>"

definition quarterHourPolicy :: CalendarPolicy where
  "quarterHourPolicy = examplePolicy\<lparr>slotGranularity := 15\<rparr>"

definition fiveMinutePolicy :: CalendarPolicy where
  "fiveMinutePolicy = examplePolicy\<lparr>slotGranularity := 5\<rparr>"

definition mondayAt :: "int \<Rightarrow> int \<Rightarrow> int" where
  "mondayAt hours minutes = wallClock usEastern monday (hours * 60 + minutes)"



definition exampleBooking :: StoredBooking where
  "exampleBooking =
     \<lparr> sb_id = 1, sb_serviceId = js ''svc-basic'', sb_addOnIds = [js ''wax''],
       sb_startAtUtc = mondayAt 10 0, sb_endAtUtc = mondayAt 11 30, sb_priceCents = 7549,
       sb_status = Confirmed,
       sb_customerName = js ''Martin Heath'', sb_email = js ''martin@seastreet.example'',
       sb_phone = js ''(508) 555-0142'', sb_address = js ''12 Sea Street, Hyannis'',
       sb_notes = None, sb_createdAt = eveningNow \<rparr>"


chapter \<open>Properties\<close>

section \<open>Rounding to binary64\<close>

lemma ofInt_0: "ofInt 0 = Finite 0"
  by (simp add: ofInt_def roundNearest_def)

lemma ofInt_100: "ofInt 100 = Finite 100"
  by code_simp

lemma overflowThreshold_eq: "overflowThreshold = 2 powi 1024"
  by (simp add: overflowThreshold_def flip: power_mult)

text \<open>The exponent found for a positive rational is the right one.\<close>

lemma floorLog2_lower:
  assumes "0 < a"
  shows "2 powi floorLog2 a \<le> a"
proof -
  obtain p q where pq: "quotient_of a = (p, q)"
    by (cases "quotient_of a")
  have q: "0 < q"
    using quotient_of_denom_pos [OF pq] .
  have a: "a = of_int p / of_int q"
    using quotient_of_div [OF pq] .
  have p: "0 < p"
    using assms q unfolding a by (simp add: zero_less_divide_iff)
  define e where "e = bitlen p - bitlen q"
  have bp: "1 \<le> bitlen p" and bq: "1 \<le> bitlen q"
    using p q by (simp_all add: bitlen_alt_def)
  have lp: "(2::rat) powi (bitlen p - 1) \<le> of_int p"
  proof -
    have "(2::int) ^ nat (bitlen p - 1) \<le> p"
      using bitlen_bounds [OF p] by simp
    then have "(of_int ((2::int) ^ nat (bitlen p - 1)) :: rat) \<le> of_int p"
      by (simp only: of_int_le_iff)
    then show ?thesis
      using bp by (simp add: power_int_def)
  qed
  have uq: "of_int q \<le> (2::rat) powi bitlen q"
  proof -
    have "q < (2::int) ^ nat (bitlen q)"
      using bitlen_bounds [OF q] by simp
    then have "(of_int q :: rat) < of_int ((2::int) ^ nat (bitlen q))"
      by (simp only: of_int_less_iff)
    then show ?thesis
      using bq by (simp add: power_int_def)
  qed
  have "(2::rat) powi (e - 1) = 2 powi (bitlen p - 1) / 2 powi bitlen q"
    unfolding e_def by (simp add: power_int_diff)
  also have "\<dots> \<le> of_int p / of_int q"
    using lp uq p q by (intro frac_le) simp_all
  finally have low: "(2::rat) powi (e - 1) \<le> a"
    unfolding a .
  show ?thesis
    using low by (simp add: floorLog2_def pq e_def Let_def)
qed

lemma floorLog2_upper:
  assumes "0 < a"
  shows "a < 2 powi (floorLog2 a + 1)"
proof -
  obtain p q where pq: "quotient_of a = (p, q)"
    by (cases "quotient_of a")
  have q: "0 < q"
    using quotient_of_denom_pos [OF pq] .
  have a: "a = of_int p / of_int q"
    using quotient_of_div [OF pq] .
  have p: "0 < p"
    using assms q unfolding a by (simp add: zero_less_divide_iff)
  define e where "e = bitlen p - bitlen q"
  have bp: "1 \<le> bitlen p" and bq: "1 \<le> bitlen q"
    using p q by (simp_all add: bitlen_alt_def)
  have up: "of_int p < (2::rat) powi bitlen p"
  proof -
    have "p < (2::int) ^ nat (bitlen p)"
      using bitlen_bounds [OF p] by simp
    then have "(of_int p :: rat) < of_int ((2::int) ^ nat (bitlen p))"
      by (simp only: of_int_less_iff)
    then show ?thesis
      using bp by (simp add: power_int_def)
  qed
  have lq: "(2::rat) powi (bitlen q - 1) \<le> of_int q"
  proof -
    have "(2::int) ^ nat (bitlen q - 1) \<le> q"
      using bitlen_bounds [OF q] by simp
    then have "(of_int ((2::int) ^ nat (bitlen q - 1)) :: rat) \<le> of_int q"
      by (simp only: of_int_le_iff)
    then show ?thesis
      using bq by (simp add: power_int_def)
  qed
  have "of_int p / of_int q < (2::rat) powi bitlen p / 2 powi (bitlen q - 1)"
    using up lq p q by (intro frac_less) simp_all
  also have "\<dots> = 2 powi (e + 1)"
  proof -
    have d: "(2::rat) powi (bitlen p - (bitlen q - 1)) = 2 powi bitlen p / 2 powi (bitlen q - 1)"
      by (rule power_int_diff) simp
    have "e + 1 = bitlen p - (bitlen q - 1)"
      by (simp add: e_def)
    then show ?thesis
      unfolding d [symmetric] by (rule arg_cong [symmetric])
  qed
  finally have high: "a < 2 powi (e + 1)"
    unfolding a .
  show ?thesis
    using high by (simp add: floorLog2_def pq e_def Let_def not_le)
qed

lemma roundHalfEven_near: "\<bar>of_int (roundHalfEven t) - t\<bar> \<le> 1 / 2"
proof -
  have "of_int \<lfloor>t\<rfloor> \<le> t" "t < of_int \<lfloor>t\<rfloor> + 1"
    by linarith+
  then show ?thesis
    by (auto simp: roundHalfEven_def Let_def)
qed

lemma roundHalfEven_of_int [simp]: "roundHalfEven (of_int z) = z"
  by (simp add: roundHalfEven_def)

lemma tiny_le: "n \<le> - 8 \<Longrightarrow> (2::rat) powi n \<le> 1 / 200"
proof -
  assume "n \<le> - 8"
  then have "(2::rat) powi n \<le> 2 powi (- 8)"
    by (intro power_int_increasing) simp_all
  also have "\<dots> \<le> 1 / 200"
    by (simp add: power_int_minus)
  finally show ?thesis .
qed

text \<open>
  A value that is not below the least positive binary64 value rounds to an infinity or
  to a finite value of at least half its magnitude: never to a zero, never to NaN.
\<close>

lemma roundNearest_cases:
  assumes "2 powi (- 1074) \<le> \<bar>x\<bar>"
  shows "roundNearest x = Infinity \<or> roundNearest x = MinusInfinity
       \<or> (\<exists>r. roundNearest x = Finite r \<and> \<bar>x\<bar> / 2 \<le> \<bar>r\<bar>)"
proof -
  define a where "a = \<bar>x\<bar>"
  define k where "k = max (floorLog2 a - 52) (- 1074)"
  define m where "m = roundHalfEven (a / 2 powi k)"
  define v :: rat where "v = of_int m * 2 powi k"
  have pos: "0 < a"
  proof -
    have "(0::rat) < 2 powi (- 1074)" by simp
    with assms show ?thesis unfolding a_def by linarith
  qed
  then have x: "x \<noteq> 0"
    by (auto simp: a_def)
  have pk: "(0::rat) < 2 powi k"
    by simp
  have step: "2 powi k \<le> a"
  proof (cases "floorLog2 a - 52 \<le> - 1074")
    case True
    then have "k = - 1074" by (simp add: k_def)
    with assms show ?thesis by (simp add: a_def)
  next
    case False
    then have "k = floorLog2 a - 52" by (simp add: k_def)
    then have "(2::rat) powi k \<le> 2 powi floorLog2 a"
      by (intro power_int_increasing) simp_all
    with floorLog2_lower [OF pos] show ?thesis by linarith
  qed
  define t where "t = a / 2 powi k"
  have t: "1 \<le> t"
    using step pk by (simp add: t_def le_divide_eq)
  have near: "t - 1 / 2 \<le> of_int m"
    using roundHalfEven_near [of t] unfolding m_def t_def by linarith
  with t have half: "t / 2 \<le> of_int m"
    by linarith
  from near t have "(1::rat) / 2 \<le> of_int m"
    by linarith
  then have m: "0 < m"
    by linarith
  have "a / 2 = t / 2 * 2 powi k"
    by (simp add: t_def)
  also have "\<dots> \<le> v"
    unfolding v_def using half pk by (intro mult_right_mono) simp_all
  finally have v: "a / 2 \<le> v" .
  have r: "roundNearest x =
      (if overflowThreshold \<le> v then (if 0 < x then Infinity else MinusInfinity)
       else Finite (if 0 < x then v else - v))"
    using x m by (simp add: roundNearest_def Let_def a_def [symmetric] k_def [symmetric]
        m_def [symmetric] v_def [symmetric])
  have "0 \<le> v"
    using v pos by linarith
  then have "\<bar>x\<bar> / 2 \<le> \<bar>if 0 < x then v else - v\<bar>"
    using v unfolding a_def by (cases "0 < x") simp_all
  with r show ?thesis
    by (cases "overflowThreshold \<le> v"; cases "0 < x") simp_all
qed

text \<open>A finite result lies within half a unit in the last place of the exact value.\<close>

lemma roundNearest_error:
  assumes "roundNearest x = Finite r"
  shows "\<bar>r - x\<bar> \<le> 2 powi max (floorLog2 \<bar>x\<bar> - 52) (- 1074) / 2"
proof (cases "x = 0")
  case True
  with assms show ?thesis
    by (simp add: roundNearest_def)
next
  case False
  define a where "a = \<bar>x\<bar>"
  define k where "k = max (floorLog2 a - 52) (- 1074)"
  define m where "m = roundHalfEven (a / 2 powi k)"
  define v :: rat where "v = of_int m * 2 powi k"
  have pk: "(0::rat) < 2 powi k"
    by simp
  have "\<bar>of_int m - a / 2 powi k\<bar> * 2 powi k \<le> 1 / 2 * 2 powi k"
    using roundHalfEven_near [of "a / 2 powi k"] pk unfolding m_def
    by (intro mult_right_mono) simp_all
  moreover have "\<bar>of_int m - a / 2 powi k\<bar> * 2 powi k = \<bar>v - a\<bar>"
  proof -
    have "v - a = (of_int m - a / 2 powi k) * 2 powi k"
      by (simp add: v_def left_diff_distrib)
    then have "\<bar>v - a\<bar> = \<bar>of_int m - a / 2 powi k\<bar> * \<bar>(2::rat) powi k\<bar>"
      by (simp only: abs_mult)
    also have "\<bar>(2::rat) powi k\<bar> = 2 powi k"
      by simp
    finally show ?thesis ..
  qed
  ultimately have near: "\<bar>v - a\<bar> \<le> 2 powi k / 2"
    by simp
  have "m = 0 \<Longrightarrow> v = 0"
    by (simp add: v_def)
  then have r: "r = (if 0 < x then v else - v)"
    using assms False
    by (auto simp add: roundNearest_def Let_def a_def [symmetric] k_def [symmetric]
        m_def [symmetric] v_def [symmetric] split: if_splits)
  have "\<bar>r - x\<bar> = \<bar>v - a\<bar>"
    using False unfolding r a_def by (cases "0 < x") simp_all
  with near show ?thesis
    by (simp add: k_def a_def)
qed

text \<open>
  Integers of magnitude up to \<open>2 ^ 53\<close> are binary64 values, and so are their sums as long
  as these stay in that range: arithmetic on such integers is exact.
\<close>

lemma roundNearest_of_int:
  assumes "\<bar>n\<bar> \<le> 2 ^ 53"
  shows "roundNearest (of_int n) = Finite (of_int n)"
proof (cases "n = 0")
  case True
  then show ?thesis by (simp add: roundNearest_def)
next
  case False
  define a :: rat where "a = \<bar>of_int n\<bar>"
  define k where "k = max (floorLog2 a - 52) (- 1074)"
  have a: "a = of_int \<bar>n\<bar>"
    by (simp add: a_def)
  have pos: "0 < a"
    using False by (simp add: a_def)
  have top: "a \<le> 2 powi 53"
  proof -
    have "(of_int \<bar>n\<bar> :: rat) \<le> of_int (2 ^ 53)"
      using assms by (simp only: of_int_le_iff)
    then show ?thesis
      by (simp add: a)
  qed
  have e: "floorLog2 a \<le> 53"
  proof (rule ccontr)
    assume "\<not> floorLog2 a \<le> 53"
    then have "(2::rat) powi 54 \<le> 2 powi floorLog2 a"
      by (intro power_int_increasing) simp_all
    moreover have "(2::rat) powi 53 < 2 powi 54"
      by (intro power_int_strict_increasing) simp_all
    ultimately show False
      using floorLog2_lower [OF pos] top by linarith
  qed
  then have k: "k \<le> 1"
    by (simp add: k_def)
  have "\<exists>z. a / 2 powi k = of_int z"
  proof (cases "k \<le> 0")
    case True
    then have "a / 2 powi k = of_int (\<bar>n\<bar> * 2 ^ nat (- k))"
      by (simp add: a power_int_def field_simps)
    then show ?thesis ..
  next
    case False
    with k have k1: "k = 1" by simp
    then have "floorLog2 a = 53"
      using e by (simp add: k_def split: if_splits)
    with floorLog2_lower [OF pos] top have "a = 2 powi 53"
      by simp
    then have "a / 2 powi k = of_int (2 ^ 52)"
      by (simp add: k1)
    then show ?thesis ..
  qed
  then obtain z where z: "a / 2 powi k = of_int z" ..
  then have v: "of_int z * 2 powi k = a"
    by (simp add: field_simps)
  have z0: "z \<noteq> 0"
    using v pos by auto
  have "(2::rat) powi 53 < 2 powi 1024"
    by (intro power_int_strict_increasing) simp_all
  with top have small: "\<not> overflowThreshold \<le> a"
    unfolding overflowThreshold_eq by linarith
  have "roundNearest (of_int n) = Finite (if 0 < (of_int n :: rat) then a else - a)"
    using False z0 small
    by (simp add: roundNearest_def Let_def a_def [symmetric] k_def [symmetric] z v)
  then show ?thesis
    by (simp add: a_def)
qed

lemma ofInt_exact: "\<bar>n\<bar> \<le> 2 ^ 53 \<Longrightarrow> ofInt n = Finite (of_int n)"
  unfolding ofInt_def by (rule roundNearest_of_int)

lemma numberAdd_integers:
  assumes "\<bar>a + b\<bar> \<le> 2 ^ 53"
  shows "numberAdd (Finite (of_int a)) (Finite (of_int b)) = Finite (of_int (a + b))"
  using roundNearest_of_int [OF assms] by (simp add: numberAdd_def isInfinite_def)

lemma foldl_numberAdd_integers:
  assumes "\<forall>d\<in>set ds. 0 \<le> d" "0 \<le> acc" "acc + sum_list ds \<le> 2 ^ 53"
  shows "foldl numberAdd (Finite (of_int acc)) (map (\<lambda>d. Finite (of_int d)) ds)
         = Finite (of_int (acc + sum_list ds))"
  using assms
proof (induction ds arbitrary: acc)
  case Nil
  then show ?case by simp
next
  case (Cons d ds)
  have "0 \<le> sum_list ds"
    using Cons.prems(1) by (simp add: sum_list_nonneg)
  with Cons.prems have "\<bar>acc + d\<bar> \<le> 2 ^ 53"
    by simp
  from numberAdd_integers [OF this] Cons.IH [of "acc + d"] Cons.prems show ?case
    by (simp add: add.assoc)
qed

section \<open>Totals of the booking form\<close>

text \<open>
  \<^verbatim>\<open>|| 0\<close> keeps every price and duration of a catalog that the form has fetched: such a
  value is neither NaN nor \<open>-0\<close>, and \<open>+0\<close> is replaced by itself.
\<close>

lemma orZero_keeps_roundNearest:
  assumes "2 powi (- 1074) \<le> \<bar>x\<bar>"
  shows "orZero (Some (roundNearest x)) = roundNearest x"
proof -
  have "(0::rat) < 2 powi (- 1074)" by simp
  with assms have "0 < \<bar>x\<bar> / 2" by linarith
  with roundNearest_cases [OF assms] show ?thesis
    by (auto simp: orZero_def isZero_def)
qed

lemma orZero_keeps_ofInt: "orZero (Some (ofInt n)) = ofInt n"
proof (cases "n = 0")
  case True
  then show ?thesis by (simp add: ofInt_0 orZero_def)
next
  case False
  then have "(1::rat) \<le> \<bar>of_int n\<bar>"
    by (simp flip: of_int_abs)
  moreover have "(2::rat) powi (- 1074) \<le> 1 / 200"
    by (rule tiny_le) simp
  ultimately have "(2::rat) powi (- 1074) \<le> \<bar>of_int n\<bar>"
    by linarith
  then show ?thesis
    unfolding ofInt_def by (rule orZero_keeps_roundNearest)
qed

lemma orZero_keeps_cents:
  "orZero (Some (numberDivide (ofInt c) (ofInt 100))) = numberDivide (ofInt c) (ofInt 100)"
proof (cases "c = 0")
  case True
  then show ?thesis
    by (simp add: ofInt_0 ofInt_100 numberDivide_def isInfinite_def isZero_def signedZero_def
        orZero_def)
next
  case False
  then have one: "(1::rat) \<le> \<bar>of_int c\<bar>"
    by (simp flip: of_int_abs)
  have tiny: "(2::rat) powi (- 1074) \<le> 1 / 200"
    by (rule tiny_le) simp
  from one tiny have "(2::rat) powi (- 1074) \<le> \<bar>of_int c\<bar>"
    by linarith
  from roundNearest_cases [OF this]
  consider "ofInt c = Infinity" | "ofInt c = MinusInfinity"
    | r where "ofInt c = Finite r" "1 / 2 \<le> \<bar>r\<bar>"
    unfolding ofInt_def using one by fastforce
  then show ?thesis
  proof cases
    case 1
    then show ?thesis
      by (simp add: ofInt_100 numberDivide_def isInfinite_def signedInfinity_def orZero_def
          isZero_def)
  next
    case 2
    then show ?thesis
      by (simp add: ofInt_100 numberDivide_def isInfinite_def signedInfinity_def orZero_def
          isZero_def)
  next
    case 3
    then have "(2::rat) powi (- 1074) \<le> \<bar>r / 100\<bar>"
      using tiny by simp
    moreover from 3 have "r \<noteq> 0"
      by auto
    ultimately show ?thesis
      using orZero_keeps_roundNearest [of "r / 100"] 3(1)
      by (simp add: ofInt_100 numberDivide_def isInfinite_def isZero_def)
  qed
qed

text \<open>
  The catalog of every page the form can reach is a fetched one, formatted entry by
  entry; only a completed fetch writes it.
\<close>

lemma catalog_validate [simp]:
  "services (snd (validateCustomerInfo p)) = services p"
  "addOns (snd (validateCustomerInfo p)) = addOns p"
  by (simp_all add: validateCustomerInfo_def Let_def)

lemma catalog_handleContinue [simp]:
  "services (handleContinue p) = services p"
  "addOns (handleContinue p) = addOns p"
  by (simp_all add: handleContinue_def split: prod.splits)
    (metis catalog_validate snd_conv)+

lemma catalog_clearError [simp]:
  "services (clearError k p) = services p"
  "addOns (clearError k p) = addOns p"
  by (simp_all add: clearError_def)

lemma react_catalog:
  assumes "\<exists>ss as. services p = map formattedService ss \<and> addOns p = map formattedAddOn as"
  shows "\<exists>ss as. services (react p e) = map formattedService ss
           \<and> addOns (react p e) = map formattedAddOn as"
proof (cases e)
  case (CatalogFetched ss as)
  then show ?thesis by auto
qed (use assms in \<open>simp_all add: handleServiceSelect_def handleAddOnToggle_def
      handleDateSelect_def handleTimeSlotSelect_def handleBack_def\<close>)

lemma foldl_react_catalog:
  "\<exists>ss as. services p = map formattedService ss \<and> addOns p = map formattedAddOn as \<Longrightarrow>
   \<exists>ss as. services (foldl react p evs) = map formattedService ss
           \<and> addOns (foldl react p evs) = map formattedAddOn as"
proof (induction evs arbitrary: p)
  case Nil
  then show ?case by simp
next
  case (Cons e evs)
  from Cons.IH [OF react_catalog [OF Cons.prems]] show ?case by simp
qed

lemma run_catalog:
  "\<exists>ss as. services (run evs) = map formattedService ss
           \<and> addOns (run evs) = map formattedAddOn as"
  unfolding run_def by (rule foldl_react_catalog) (simp add: initialPage_def)

lemma run_service_kept:
  assumes "s \<in> set (services (run evs))"
  shows "orZero (Some (svc_price s)) = svc_price s"
    and "orZero (Some (svc_duration s)) = svc_duration s"
proof -
  from run_catalog [of evs] assms obtain svc where "s = formattedService svc"
    by auto
  then show "orZero (Some (svc_price s)) = svc_price s"
    and "orZero (Some (svc_duration s)) = svc_duration s"
    by (simp_all add: formattedService_def orZero_keeps_cents orZero_keeps_ofInt)
qed

lemma run_addOn_kept:
  assumes "a \<in> set (addOns (run evs))"
  shows "orZero (Some (addon_price a)) = addon_price a"
    and "orZero (Some (addon_duration a)) = addon_duration a"
proof -
  from run_catalog [of evs] assms obtain addon where "a = formattedAddOn addon"
    by auto
  then show "orZero (Some (addon_price a)) = addon_price a"
    and "orZero (Some (addon_duration a)) = addon_duration a"
    by (simp_all add: formattedAddOn_def orZero_keeps_cents orZero_keeps_ofInt)
qed

lemma find_member: "find P xs = Some x \<Longrightarrow> x \<in> set xs"
  by (auto simp: find_Some_iff)

text \<open>The \<^verbatim>\<open>reduce\<close> over the selected ids, with every id resolved.\<close>

lemma resolved_fold:
  assumes "list_all2 (\<lambda>i a. find (\<lambda>a. addon_id a = i) cat = Some a) ids as"
    and "\<And>a. a \<in> set cat \<Longrightarrow> orZero (Some (f a)) = f a"
  shows "foldl (\<lambda>total i. numberAdd total
            (orZero (map_option f (find (\<lambda>a. addon_id a = i) cat)))) acc ids
         = foldl numberAdd acc (map f as)"
  using assms(1)
proof (induction arbitrary: acc rule: list_all2_induct)
  case Nil
  show ?case by simp
next
  case (Cons i ids a as)
  from Cons.hyps(1) have "a \<in> set cat"
    by (rule find_member)
  with Cons.hyps(1) Cons.IH assms(2) show ?case
    by simp
qed

lemma addOns_resolved:
  assumes "list_all2 (\<lambda>i a. find (\<lambda>a. addon_id a = i) (addOns (run evs)) = Some a)
           (selectedAddOns (run evs)) as"
  shows "addOnsDuration (run evs) = foldl numberAdd (Finite 0) (map addon_duration as)"
    and "addOnsTotal (run evs) = foldl numberAdd (Finite 0) (map addon_price as)"
  unfolding addOnsDuration_def addOnsTotal_def ofInt_0
  by (rule resolved_fold [OF assms], rule run_addOn_kept, assumption)+

lemma service_resolved:
  assumes "selectedService (run evs) = Some i"
    and "find (\<lambda>s. svc_id s = i) (services (run evs)) = Some s"
  shows "serviceDuration (run evs) = svc_duration s"
    and "servicePrice (run evs) = svc_price s"
proof -
  have s: "selectedServiceData (run evs) = Some s"
    using assms by (simp add: selectedServiceData_def)
  have m: "s \<in> set (services (run evs))"
    using assms(2) by (rule find_member)
  show "serviceDuration (run evs) = svc_duration s"
    and "servicePrice (run evs) = svc_price s"
    by (simp_all add: serviceDuration_def servicePrice_def s run_service_kept [OF m])
qed



lemma example_integers:
  "ofInt 4999 = Finite 4999" "ofInt 2550 = Finite 2550" "ofInt 2000 = Finite 2000"
  "ofInt 9549 = Finite 9549" "ofInt 10 = Finite 10" "ofInt 20 = Finite 20"
  "ofInt 30 = Finite 30" "ofInt 60 = Finite 60" "ofInt 15 = Finite 15"
  by (simp_all add: ofInt_exact)

lemma example_quotients:
  "numberDivide (Finite 4999) (Finite 100) = Finite (7035467042882847 / 140737488355328)"
  "numberDivide (Finite 2550) (Finite 100) = Finite (51 / 2)"
  "numberDivide (Finite 2000) (Finite 100) = Finite 20"
  "numberDivide (Finite 9549) (Finite 100) = Finite (6719511381525135 / 70368744177664)"
  "numberDivide (Finite 10) (Finite 100) = Finite (3602879701896397 / 36028797018963968)"
  "numberDivide (Finite 20) (Finite 100) = Finite (3602879701896397 / 18014398509481984)"
  "numberDivide (Finite 30) (Finite 100) = Finite (5404319552844595 / 18014398509481984)"
  by code_simp+






text \<open>
  The total of the example is the number 95.49000000000001, while 9549 cents divided by
  100 are the number 95.49. The total also depends on the order of selection: prices of
  0.10, 0.20 and 0.30 add up to 0.6000000000000001 in this order and to 0.6 in the
  opposite one.
\<close>

lemma example_order_sums:
  "numberAdd (Finite 0) (Finite (3602879701896397 / 36028797018963968))
     = Finite (3602879701896397 / 36028797018963968)"
  "numberAdd (Finite (3602879701896397 / 36028797018963968))
     (Finite (3602879701896397 / 18014398509481984))
     = Finite (1351079888211149 / 4503599627370496)"
  "numberAdd (Finite (1351079888211149 / 4503599627370496))
     (Finite (5404319552844595 / 18014398509481984))
     = Finite (1351079888211149 / 2251799813685248)"
  "numberAdd (Finite 0) (Finite (5404319552844595 / 18014398509481984))
     = Finite (5404319552844595 / 18014398509481984)"
  "numberAdd (Finite (5404319552844595 / 18014398509481984))
     (Finite (3602879701896397 / 18014398509481984))
     = Finite (1 / 2)"
  "numberAdd (Finite (1 / 2)) (Finite (3602879701896397 / 36028797018963968))
     = Finite (5404319552844595 / 9007199254740992)"
  by code_simp+

lemma selection_order_matters:
  "foldl numberAdd (Finite 0) (map (\<lambda>c. numberDivide (ofInt c) (ofInt 100)) [10, 20, 30])
     = Finite (1351079888211149 / 2251799813685248)"
  "foldl numberAdd (Finite 0) (map (\<lambda>c. numberDivide (ofInt c) (ofInt 100)) [30, 20, 10])
     = Finite (5404319552844595 / 9007199254740992)"
  by (simp_all add: example_integers ofInt_100 example_quotients example_order_sums)

text \<open>
  Durations are whole minutes. As long as they are not negative and their sum does not
  exceed \<open>2 ^ 53\<close>, no addition rounds, and the total duration is the sum of the integers
  that the catalog delivered.
\<close>

lemma totalDuration_exact:
  assumes "selectedService (run evs) = Some i"
    and "find (\<lambda>s. svc_id s = i) (services (run evs)) = Some (formattedService svc)"
    and "list_all2 (\<lambda>i a. find (\<lambda>a. addon_id a = i) (addOns (run evs)) = Some a)
           (selectedAddOns (run evs)) (map formattedAddOn ads)"
    and "0 \<le> api_svc_duration svc" "\<forall>a\<in>set ads. 0 \<le> api_addon_duration a"
    and "api_svc_duration svc + sum_list (map api_addon_duration ads) \<le> 2 ^ 53"
  shows "totalDuration (run evs)
         = Finite (of_int (api_svc_duration svc + sum_list (map api_addon_duration ads)))"
proof -
  let ?ds = "map api_addon_duration ads"
  have nn: "\<forall>d\<in>set ?ds. 0 \<le> d"
    using assms(5) by simp
  then have nn2: "0 \<le> sum_list ?ds"
    by (intro sum_list_nonneg) blast
  have small: "\<forall>d\<in>set ?ds. \<bar>d\<bar> \<le> 2 ^ 53"
  proof
    fix d assume d: "d \<in> set ?ds"
    then have "d \<le> sum_list ?ds"
      using nn member_le_sum_list [of d ?ds] by blast
    with d nn nn2 assms(4,6) show "\<bar>d\<bar> \<le> 2 ^ 53"
      by auto
  qed
  have eq: "map addon_duration (map formattedAddOn ads) = map (\<lambda>d. Finite (of_int d)) ?ds"
    using small by (simp add: formattedAddOn_def ofInt_exact comp_def)
  have "acc + sum_list ?ds \<le> 2 ^ 53" if "acc = 0" for acc :: int
    using that assms(4,6) by simp
  from foldl_numberAdd_integers [OF nn _ this, of 0]
  have "foldl numberAdd (Finite 0) (map (\<lambda>d. Finite (of_int d)) ?ds)
      = Finite (of_int (sum_list ?ds))"
    by simp
  with addOns_resolved(1) [OF assms(3)]
  have "addOnsDuration (run evs) = Finite (of_int (sum_list ?ds))"
    unfolding eq by (rule trans)
  moreover have "serviceDuration (run evs) = Finite (of_int (api_svc_duration svc))"
    using service_resolved(1) [OF assms(1,2)] assms(4,6) nn2
    by (simp add: formattedService_def ofInt_exact)
  ultimately show ?thesis
    using numberAdd_integers [of "api_svc_duration svc" "sum_list ?ds"] assms(4,6) nn2
    by (simp add: totalDuration_def)
qed

section \<open>The add-on selection\<close>

lemma selectedAddOns_validate [simp]:
  "selectedAddOns (snd (validateCustomerInfo p)) = selectedAddOns p"
  by (simp add: validateCustomerInfo_def Let_def)

lemma selectedAddOns_handleContinue [simp]:
  "selectedAddOns (handleContinue p) = selectedAddOns p"
  by (simp add: handleContinue_def split: prod.splits) (metis selectedAddOns_validate snd_conv)

lemma selectedAddOns_clearError [simp]:
  "selectedAddOns (clearError k p) = selectedAddOns p"
  by (simp add: clearError_def)

lemma toggle_distinct:
  "distinct (selectedAddOns p) \<Longrightarrow> distinct (selectedAddOns (handleAddOnToggle a p))"
  by (simp add: handleAddOnToggle_def Let_def)

lemma react_distinct:
  "distinct (selectedAddOns p) \<Longrightarrow> distinct (selectedAddOns (react p e))"
  by (cases e) (simp_all add: toggle_distinct handleServiceSelect_def handleDateSelect_def
      handleTimeSlotSelect_def handleBack_def)

lemma foldl_react_distinct:
  "distinct (selectedAddOns p) \<Longrightarrow> distinct (selectedAddOns (foldl react p evs))"
  by (induction evs arbitrary: p) (simp_all add: react_distinct)

lemma run_distinct: "distinct (selectedAddOns (run evs))"
  unfolding run_def by (rule foldl_react_distinct) (simp add: initialPage_def)

lemma filter_neq_remove1: "distinct xs \<Longrightarrow> filter (\<lambda>i. i \<noteq> a) xs = remove1 a xs"
  by (induction xs) (auto simp: remove1_idem)

text \<open>
  Claim C7. In every state the form can reach from its initial state (empty selection),
  by toggles and by any other action, the selected add-on list has no duplicate id, and
  so has the \<^verbatim>\<open>addOnIds\<close> of the request built from it. Toggling an id of the list
  removes that one entry and leaves the others in place; toggling an id that is not in
  the list appends it once.
\<close>

theorem addon_selection_no_duplicates:
  "distinct (selectedAddOns (run evs))
   \<and> (\<forall>req. bookingData (run evs) = Some req \<longrightarrow>
          rq_addOnIds req = selectedAddOns (run evs) \<and> distinct (rq_addOnIds req))
   \<and> (a \<in> set (selectedAddOns (run evs)) \<longrightarrow>
          selectedAddOns (handleAddOnToggle a (run evs)) = remove1 a (selectedAddOns (run evs))
        \<and> a \<notin> set (selectedAddOns (handleAddOnToggle a (run evs))))
   \<and> (a \<notin> set (selectedAddOns (run evs)) \<longrightarrow>
          selectedAddOns (handleAddOnToggle a (run evs)) = selectedAddOns (run evs) @ [a])"
proof -
  have d: "distinct (selectedAddOns (run evs))" by (rule run_distinct)
  have b: "rq_addOnIds req = selectedAddOns (run evs)" if "bookingData (run evs) = Some req" for req
    using that by (auto simp: bookingData_def split: option.splits if_splits)
  have r: "selectedAddOns (handleAddOnToggle a (run evs)) = remove1 a (selectedAddOns (run evs))"
    if "a \<in> set (selectedAddOns (run evs))"
    using that d by (simp add: handleAddOnToggle_def Let_def filter_neq_remove1)
  have n: "a \<notin> set (selectedAddOns (handleAddOnToggle a (run evs)))"
    if "a \<in> set (selectedAddOns (run evs))"
    using that by (simp add: handleAddOnToggle_def Let_def)
  have ap: "selectedAddOns (handleAddOnToggle a (run evs)) = selectedAddOns (run evs) @ [a]"
    if "a \<notin> set (selectedAddOns (run evs))"
    using that by (simp add: handleAddOnToggle_def Let_def)
  show ?thesis using d b r n ap by simp
qed

text \<open>The example session: wax on, pet on, wax off, engine on; the request is complete.\<close>

lemma run_demoEvents:
  "run demoEvents = initialPage\<lparr> selectedService := Some (js ''svc-premium''),
      selectedAddOns := [js ''pet'', js ''engine''],
      selectedDate := Some (js ''2026-01-05''),
      selectedTimeSlot := Some \<lparr> startUtc = 1767621600000, endUtc = 1767628800000 \<rparr>,
      services := map formattedService [apiBasic, apiPremium],
      addOns := map formattedAddOn [apiWax, apiPet] \<rparr>"
  by (simp add: run_def demoEvents_def handleServiceSelect_def handleAddOnToggle_def
      handleDateSelect_def handleTimeSlotSelect_def initialPage_def js_def)

theorem addon_selection_no_duplicates_witness:
  "selectedAddOns (run demoEvents) = [js ''pet'', js ''engine'']
   \<and> (\<exists>req. bookingData (run demoEvents) = Some req \<and> distinct (rq_addOnIds req))
   \<and> selectedAddOns (handleAddOnToggle (js ''pet'') (run demoEvents)) = [js ''engine'']
   \<and> selectedAddOns (handleAddOnToggle (js ''wax'') (run demoEvents))
       = [js ''pet'', js ''engine'', js ''wax'']"
proof -
  have s: "selectedAddOns (run demoEvents) = [js ''pet'', js ''engine'']"
    by (simp add: run_demoEvents)
  have b: "\<exists>req. bookingData (run demoEvents) = Some req"
    by (simp add: run_demoEvents bookingData_def truthy_def js_def initialPage_def)
  have i: "js ''pet'' \<in> set (selectedAddOns (run demoEvents))"
    by (simp add: s)
  have n: "js ''wax'' \<notin> set (selectedAddOns (run demoEvents))"
    by (simp add: s js_def)
  note t1 = addon_selection_no_duplicates [of demoEvents "js ''pet''"]
  note t2 = addon_selection_no_duplicates [of demoEvents "js ''wax''"]
  from b obtain req where req: "bookingData (run demoEvents) = Some req" ..
  with t1 have "distinct (rq_addOnIds req)" by simp
  with req have c2: "\<exists>req. bookingData (run demoEvents) = Some req \<and> distinct (rq_addOnIds req)"
    by (intro exI conjI)
  from t1 i have "selectedAddOns (handleAddOnToggle (js ''pet'') (run demoEvents))
      = remove1 (js ''pet'') (selectedAddOns (run demoEvents))"
    by simp
  then have c3: "selectedAddOns (handleAddOnToggle (js ''pet'') (run demoEvents)) = [js ''engine'']"
    by (simp add: s)
  from t2 n have "selectedAddOns (handleAddOnToggle (js ''wax'') (run demoEvents))
      = selectedAddOns (run demoEvents) @ [js ''wax'']"
    by simp
  then have c4: "selectedAddOns (handleAddOnToggle (js ''wax'') (run demoEvents))
      = [js ''pet'', js ''engine'', js ''wax'']"
    by (simp add: s)
  from s c2 c3 c4 show ?thesis by (intro conjI)
qed

subsection \<open>The interval of the request\<close>

text \<open>
  What the request says about the booked interval: both instants are copied from the
  selected time slot; neither the selected add-ons nor their durations enter them.
\<close>

lemma bookingData_instants:
  assumes "bookingData p = Some request"
  shows "\<exists>slot. selectedTimeSlot p = Some slot
           \<and> rq_startAtUtc request = startUtc slot \<and> rq_endAtUtc request = endUtc slot"
  using assms by (auto simp: bookingData_def split: option.splits if_splits)

section \<open>Matching by derivatives\<close>

text \<open>
  \<open>test\<close> decides the declarative reading of a pattern, and the e-mail pattern
  accepts the strings of the shape \<^verbatim>\<open>a@b.c\<close> with \<open>a\<close>, \<open>b\<close> and \<open>c\<close> not empty and free of
  white space and \<^verbatim>\<open>@\<close>.
\<close>

inductive_cases matches_NothingE: "matches Nothing w"
inductive_cases matches_EpsilonE: "matches Epsilon w"
inductive_cases matches_CharsE: "matches (Chars P) w"
inductive_cases matches_ChoiceE: "matches (Choice r s) w"
inductive_cases matches_ConcatE: "matches (Concat r s) w"

lemma nullable_matches: "nullable r \<longleftrightarrow> matches r []"
proof (induction r)
  case Nothing
  show ?case by (auto elim: matches_NothingE)
next
  case Epsilon
  show ?case by (auto intro: m_Epsilon)
next
  case (Chars P)
  show ?case by (auto elim: matches_CharsE)
next
  case (Choice r s)
  then show ?case by (auto intro: m_ChoiceL m_ChoiceR elim: matches_ChoiceE)
next
  case (Concat r s)
  show ?case
  proof
    assume "nullable (Concat r s)"
    with Concat have "matches r []" "matches s []" by simp_all
    from m_Concat [OF this] show "matches (Concat r s) []" by simp
  next
    assume "matches (Concat r s) []"
    then show "nullable (Concat r s)"
      using Concat by (auto elim!: matches_ConcatE)
  qed
next
  case (Repeat r)
  show ?case by (simp add: m_RepeatNil)
qed

lemma repeat_first:
  assumes "matches x y" "x = Repeat r" "y = c # w"
  shows "\<exists>u v. w = u @ v \<and> matches r (c # u) \<and> matches (Repeat r) v"
  using assms
proof (induction arbitrary: w rule: matches.induct)
  case (m_RepeatStep r' u v)
  show ?case
  proof (cases u)
    case Nil
    with m_RepeatStep.prems have "v = c # w" by simp
    from m_RepeatStep.IH(2) [OF m_RepeatStep.prems(1) this] show ?thesis .
  next
    case (Cons a u')
    with m_RepeatStep.prems have e: "a = c" "w = u' @ v" "r' = r" by simp_all
    from m_RepeatStep.hyps Cons e have "matches r (c # u')" "matches (Repeat r) v" by simp_all
    with e(2) show ?thesis by blast
  qed
qed simp_all

lemma deriv_matches: "matches (deriv c r) w \<longleftrightarrow> matches r (c # w)"
proof (induction r arbitrary: w)
  case Nothing
  show ?case by (auto elim: matches_NothingE)
next
  case Epsilon
  show ?case by (auto elim: matches_NothingE matches_EpsilonE)
next
  case (Chars P)
  show ?case
    by (auto elim: matches_NothingE matches_EpsilonE matches_CharsE intro: m_Epsilon m_Chars)
next
  case (Choice r s)
  then show ?case by (auto intro: m_ChoiceL m_ChoiceR elim!: matches_ChoiceE)
next
  case (Concat r s)
  show ?case
  proof
    assume d: "matches (deriv c (Concat r s)) w"
    have l: "matches (Concat r s) (c # w)" if "matches (Concat (deriv c r) s) w"
      using that
    proof (rule matches_ConcatE)
      fix u v assume "w = u @ v" "matches (deriv c r) u" "matches s v"
      with Concat.IH(1) have "matches r (c # u)" by simp
      from m_Concat [OF this \<open>matches s v\<close>] \<open>w = u @ v\<close> show ?thesis by simp
    qed
    have rr: "matches (Concat r s) (c # w)" if "nullable r" "matches (deriv c s) w"
    proof -
      from that Concat.IH(2) have "matches r []" "matches s (c # w)"
        by (simp_all add: nullable_matches)
      from m_Concat [OF this] show ?thesis by simp
    qed
    from d l rr show "matches (Concat r s) (c # w)"
      by (auto split: if_splits elim!: matches_ChoiceE)
  next
    assume "matches (Concat r s) (c # w)"
    then show "matches (deriv c (Concat r s)) w"
    proof (rule matches_ConcatE)
      fix u v assume uv: "c # w = u @ v" "matches r u" "matches s v"
      show ?thesis
      proof (cases u)
        case Nil
        with uv Concat.IH(2) have "nullable r" "matches (deriv c s) w"
          by (simp_all add: nullable_matches)
        then show ?thesis by (simp add: m_ChoiceR)
      next
        case (Cons a u')
        with uv have "a = c" "w = u' @ v" by simp_all
        with uv Cons Concat.IH(1) have "matches (deriv c r) u'" by simp
        from m_Concat [OF this uv(3)] \<open>w = u' @ v\<close> show ?thesis
          by (simp add: m_ChoiceL)
      qed
    qed
  qed
next
  case (Repeat r)
  show ?case
  proof
    assume "matches (deriv c (Repeat r)) w"
    then have "matches (Concat (deriv c r) (Repeat r)) w" by simp
    then show "matches (Repeat r) (c # w)"
    proof (rule matches_ConcatE)
      fix u v assume "w = u @ v" "matches (deriv c r) u" "matches (Repeat r) v"
      with Repeat.IH have "matches r (c # u)" by simp
      from m_RepeatStep [OF this \<open>matches (Repeat r) v\<close>] \<open>w = u @ v\<close> show ?thesis by simp
    qed
  next
    assume "matches (Repeat r) (c # w)"
    from repeat_first [OF this refl refl] obtain u v where
      "w = u @ v" "matches r (c # u)" "matches (Repeat r) v" by blast
    with Repeat.IH have "matches (Concat (deriv c r) (Repeat r)) w"
      by (auto intro: m_Concat)
    then show "matches (deriv c (Repeat r)) w" by simp
  qed
qed

lemma test_matches: "test r w \<longleftrightarrow> matches r w"
  by (induction w arbitrary: r) (simp_all add: nullable_matches deriv_matches)


lemma repeat_chars_all:
  assumes "matches x w" "x = Repeat (Chars P)"
  shows "\<forall>c\<in>set w. P c"
  using assms
proof (induction rule: matches.induct)
  case (m_RepeatStep r u v)
  from m_RepeatStep.prems have r: "r = Chars P" by simp
  from m_RepeatStep.hyps(1) [unfolded r] obtain c where "u = [c]" "P c"
    by (rule matches_CharsE)
  moreover from m_RepeatStep.IH(2) [OF m_RepeatStep.prems] have "\<forall>c\<in>set v. P c" .
  ultimately show ?case by simp
next
  case m_RepeatNil
  show ?case by simp
qed simp_all

lemma all_repeat_chars: "\<forall>c\<in>set w. P c \<Longrightarrow> matches (Repeat (Chars P)) w"
proof (induction w)
  case Nil
  show ?case by (rule m_RepeatNil)
next
  case (Cons c w)
  then have "matches (Chars P) [c]" "matches (Repeat (Chars P)) w"
    by (simp_all add: m_Chars)
  from m_RepeatStep [OF this] show ?case by simp
qed

lemma matches_OneOrMore_Chars:
  "matches (OneOrMore (Chars P)) w \<longleftrightarrow> w \<noteq> [] \<and> (\<forall>c\<in>set w. P c)"
proof
  assume "matches (OneOrMore (Chars P)) w"
  then have "matches (Concat (Chars P) (Repeat (Chars P))) w" by (simp add: OneOrMore_def)
  then show "w \<noteq> [] \<and> (\<forall>c\<in>set w. P c)"
  proof (rule matches_ConcatE)
    fix u v assume "w = u @ v" "matches (Chars P) u" "matches (Repeat (Chars P)) v"
    then show ?thesis
      using repeat_chars_all [of "Repeat (Chars P)" v P] by (auto elim: matches_CharsE)
  qed
next
  assume a: "w \<noteq> [] \<and> (\<forall>c\<in>set w. P c)"
  then obtain c v where w: "w = c # v" by (cases w) auto
  with a have "matches (Chars P) [c]" "matches (Repeat (Chars P)) v"
    by (simp_all add: m_Chars all_repeat_chars)
  from m_Concat [OF this] w show "matches (OneOrMore (Chars P)) w" by (simp add: OneOrMore_def)
qed

lemma matches_Concat_iff:
  "matches (Concat r s) w \<longleftrightarrow> (\<exists>u v. w = u @ v \<and> matches r u \<and> matches s v)"
proof
  assume "matches (Concat r s) w"
  then show "\<exists>u v. w = u @ v \<and> matches r u \<and> matches s v"
    by (rule matches_ConcatE) blast
next
  assume "\<exists>u v. w = u @ v \<and> matches r u \<and> matches s v"
  then show "matches (Concat r s) w"
    by (auto intro: m_Concat)
qed

lemma matches_Chars_iff: "matches (Chars P) w \<longleftrightarrow> (\<exists>c. w = [c] \<and> P c)"
  by (auto elim: matches_CharsE intro: m_Chars)

lemma emailRegex_language:
  "test emailRegex s \<longleftrightarrow>
     (\<exists>a b c. s = a @ [0x40] @ b @ [0x2E] @ c
        \<and> a \<noteq> [] \<and> b \<noteq> [] \<and> c \<noteq> []
        \<and> (\<forall>x\<in>set a. notSpaceOrAt x) \<and> (\<forall>x\<in>set b. notSpaceOrAt x)
        \<and> (\<forall>x\<in>set c. notSpaceOrAt x))"
proof
  assume "test emailRegex s"
  then have "matches emailRegex s" by (simp add: test_matches)
  then obtain a t1 where 1: "s = a @ t1" "matches (OneOrMore (Chars notSpaceOrAt)) a"
      "matches (Concat (Chars (\<lambda>c. c = 0x40))
         (Concat (OneOrMore (Chars notSpaceOrAt)) (Concat (Chars (\<lambda>c. c = 0x2E)) (OneOrMore (Chars notSpaceOrAt))))) t1"
    unfolding emailRegex_def by (rule matches_ConcatE)
  from 1(3) obtain x t2 where 2: "t1 = x @ t2" "matches (Chars (\<lambda>c. c = 0x40)) x"
      "matches (Concat (OneOrMore (Chars notSpaceOrAt))
         (Concat (Chars (\<lambda>c. c = 0x2E)) (OneOrMore (Chars notSpaceOrAt)))) t2"
    by (rule matches_ConcatE)
  from 2(3) obtain b t3 where 3: "t2 = b @ t3" "matches (OneOrMore (Chars notSpaceOrAt)) b"
      "matches (Concat (Chars (\<lambda>c. c = 0x2E)) (OneOrMore (Chars notSpaceOrAt))) t3"
    by (rule matches_ConcatE)
  from 3(3) obtain y c where 4: "t3 = y @ c" "matches (Chars (\<lambda>c. c = 0x2E)) y"
      "matches (OneOrMore (Chars notSpaceOrAt)) c"
    by (rule matches_ConcatE)
  from 2(2) have x: "x = [0x40]" by (rule matches_CharsE) simp
  from 4(2) have y: "y = [0x2E]" by (rule matches_CharsE) simp
  have eq: "s = a @ [0x40] @ b @ [0x2E] @ c"
    by (simp add: 1(1) 2(1) 3(1) 4(1) x y)
  from 1(2) have a: "a \<noteq> []" "\<forall>x\<in>set a. notSpaceOrAt x"
    by (simp_all add: matches_OneOrMore_Chars)
  from 3(2) have b: "b \<noteq> []" "\<forall>x\<in>set b. notSpaceOrAt x"
    by (simp_all add: matches_OneOrMore_Chars)
  from 4(3) have c: "c \<noteq> []" "\<forall>x\<in>set c. notSpaceOrAt x"
    by (simp_all add: matches_OneOrMore_Chars)
  from eq a b c show "\<exists>a b c. s = a @ [0x40] @ b @ [0x2E] @ c
        \<and> a \<noteq> [] \<and> b \<noteq> [] \<and> c \<noteq> []
        \<and> (\<forall>x\<in>set a. notSpaceOrAt x) \<and> (\<forall>x\<in>set b. notSpaceOrAt x)
        \<and> (\<forall>x\<in>set c. notSpaceOrAt x)"
    by (intro exI conjI)
next
  assume "\<exists>a b c. s = a @ [0x40] @ b @ [0x2E] @ c
        \<and> a \<noteq> [] \<and> b \<noteq> [] \<and> c \<noteq> []
        \<and> (\<forall>x\<in>set a. notSpaceOrAt x) \<and> (\<forall>x\<in>set b. notSpaceOrAt x)
        \<and> (\<forall>x\<in>set c. notSpaceOrAt x)"
  then obtain a b c where s: "s = a @ [0x40] @ b @ [0x2E] @ c"
    and n: "a \<noteq> []" "b \<noteq> []" "c \<noteq> []"
    and q: "\<forall>x\<in>set a. notSpaceOrAt x" "\<forall>x\<in>set b. notSpaceOrAt x" "\<forall>x\<in>set c. notSpaceOrAt x"
    by (elim exE conjE)
  from n q have m: "matches (OneOrMore (Chars notSpaceOrAt)) a" "matches (OneOrMore (Chars notSpaceOrAt)) b"
      "matches (OneOrMore (Chars notSpaceOrAt)) c"
    by (simp_all add: matches_OneOrMore_Chars)
  have at: "matches (Chars (\<lambda>c. c = 0x40)) [0x40]"
    by (rule m_Chars) simp
  have dot: "matches (Chars (\<lambda>c. c = 0x2E)) [0x2E]"
    by (rule m_Chars) simp
  from m_Concat [OF m(1) m_Concat [OF at m_Concat [OF m(2) m_Concat [OF dot m(3)]]]]
  have "matches emailRegex s" unfolding emailRegex_def s by simp
  then show "test emailRegex s" by (simp add: test_matches)
qed

section \<open>Validation of the customer details\<close>

lemma trim_Nil_iff: "trim s = [] \<longleftrightarrow> (\<forall>c\<in>set s. isWhiteSpace c)"
proof
  assume "trim s = []"
  then have "dropWhile isWhiteSpace (rev (dropWhile isWhiteSpace s)) = []"
    by (simp add: trim_def)
  then have "\<forall>c\<in>set (dropWhile isWhiteSpace s). isWhiteSpace c"
    by (simp add: dropWhile_eq_Nil_conv)
  then have "dropWhile isWhiteSpace s = []"
    by (metis hd_dropWhile list.set_sel(1))
  then show "\<forall>c\<in>set s. isWhiteSpace c"
    by (simp add: dropWhile_eq_Nil_conv)
next
  assume "\<forall>c\<in>set s. isWhiteSpace c"
  then have "dropWhile isWhiteSpace s = []"
    by (simp add: dropWhile_eq_Nil_conv)
  then have "rev (dropWhile isWhiteSpace (rev (dropWhile isWhiteSpace s))) = rev (dropWhile isWhiteSpace (rev []))"
    by (rule arg_cong)
  then show "trim s = []"
    unfolding trim_def by simp
qed


lemma email_trim_nonempty:
  assumes "test emailRegex s"
  shows "trim s \<noteq> []"
proof -
  from assms obtain a b c where s: "s = a @ [0x40] @ b @ [0x2E] @ c"
    and a: "a \<noteq> []" "\<forall>x\<in>set a. notSpaceOrAt x"
    unfolding emailRegex_language by blast
  from a obtain x where "x \<in> set a" "\<not> isWhiteSpace x"
    by (cases a) (auto simp: notSpaceOrAt_def)
  with s have "\<exists>x\<in>set s. \<not> isWhiteSpace x" by auto
  then show ?thesis by (simp add: trim_Nil_iff)
qed

lemma digit_not_space: "isDigit c \<Longrightarrow> \<not> isWhiteSpace c"
  by (auto simp: isDigit_def isWhiteSpace_def)

lemma phone_trim_nonempty:
  assumes "length (filter isDigit s) = 10"
  shows "trim s \<noteq> []"
proof -
  from assms have "filter isDigit s \<noteq> []" by auto
  then obtain c where "c \<in> set s" "isDigit c"
    by (metis filter_False)
  then show ?thesis
    using digit_not_space by (auto simp: trim_Nil_iff)
qed

lemma setProp_nonempty: "setProp k v al \<noteq> []"
  by (cases al) (auto split: if_splits)

text \<open>
  Claim C10. \<^verbatim>\<open>validateCustomerInfo\<close> returns true exactly when the trimmed name has at
  least 2 code units, the e-mail address matches the pattern, the phone number keeps
  exactly 10 digits and the trimmed address has at least 10 code units. From step 3
  \<^verbatim>\<open>handleContinue\<close> goes to step 4 when the validation returns true and stays at step 3
  otherwise.
\<close>

theorem validateCustomerInfo_iff:
  "(fst (validateCustomerInfo p) \<longleftrightarrow>
      2 \<le> length (trim (customerName p))
    \<and> test emailRegex (customerEmail p)
    \<and> length (filter isDigit (customerPhone p)) = 10
    \<and> 10 \<le> length (trim (customerAddress p)))
   \<and> (currentStep p = 3 \<longrightarrow>
        currentStep (handleContinue p) = (if fst (validateCustomerInfo p) then 4 else 3))"
proof -
  have v: "fst (validateCustomerInfo p) \<longleftrightarrow>
      2 \<le> length (trim (customerName p))
    \<and> test emailRegex (customerEmail p)
    \<and> length (filter isDigit (customerPhone p)) = 10
    \<and> 10 \<le> length (trim (customerAddress p))"
    using email_trim_nonempty [of "customerEmail p"] phone_trim_nonempty [of "customerPhone p"]
    by (auto simp: validateCustomerInfo_def Let_def keys_def setProp_nonempty)
  have s: "currentStep (snd (validateCustomerInfo p)) = currentStep p"
    by (simp add: validateCustomerInfo_def Let_def)
  have c: "currentStep (handleContinue p) = (if fst (validateCustomerInfo p) then 4 else 3)"
    if "currentStep p = 3"
    using that s by (cases "validateCustomerInfo p") (simp add: handleContinue_def)
  show ?thesis using v c by blast
qed

lemma trim_demo_name: "trim (js ''  Martin Heath '') = js ''Martin Heath''"
  by (simp add: trim_def js_def isWhiteSpace_def)

lemma test_demo_email: "test emailRegex (js ''martin@seastreet.example'')"
  by (simp add: js_def emailRegex_def OneOrMore_def notSpaceOrAt_def isWhiteSpace_def)

theorem validateCustomerInfo_iff_witness:
  "currentStep demoCustomer = 3
   \<and> fst (validateCustomerInfo demoCustomer)
   \<and> currentStep (handleContinue demoCustomer) = 4"
proof -
  have n: "2 \<le> length (trim (customerName demoCustomer))"
    by (simp add: demoCustomer_def trim_demo_name) (simp add: js_def)
  have e: "test emailRegex (customerEmail demoCustomer)"
    by (simp add: demoCustomer_def test_demo_email)
  have ph: "length (filter isDigit (customerPhone demoCustomer)) = 10"
    by (simp add: demoCustomer_def js_def isDigit_def)
  have a: "10 \<le> length (trim (customerAddress demoCustomer))"
    by (simp add: demoCustomer_def trim_def js_def isWhiteSpace_def)
  have s: "currentStep demoCustomer = 3"
    by (simp add: demoCustomer_def)
  show ?thesis
    using validateCustomerInfo_iff [of demoCustomer] n e ph a s by simp
qed

section \<open>Intervals, conflicts and emitted starts\<close>

lemma half_open_meet:
  fixes a b c d :: int
  assumes "a < b" "c < d"
  shows "{a..<b} \<inter> {c..<d} = {} \<longleftrightarrow> \<not> (a < d \<and> c < b)"
proof
  assume e: "{a..<b} \<inter> {c..<d} = {}"
  show "\<not> (a < d \<and> c < b)"
  proof
    assume "a < d \<and> c < b"
    with assms have "max a c \<in> {a..<b} \<inter> {c..<d}" by auto
    with e show False by blast
  qed
next
  assume "\<not> (a < d \<and> c < b)"
  then show "{a..<b} \<inter> {c..<d} = {}" by auto
qed

lemma candidateEnd_after: "0 < d \<Longrightarrow> start < candidateEnd start d"
  by (simp add: candidateEnd_def msPerMinute_def)

lemma conflicts_iff_meet:
  assumes "0 < d" "0 \<le> bufferBetweenJobs policy" "sb_startAtUtc b < sb_endAtUtc b"
  shows "conflicts policy start (candidateEnd start d) b \<longleftrightarrow>
         sb_status b = Confirmed \<and>
         {start ..< start + d * 60000}
           \<inter> {sb_startAtUtc b - bufferBetweenJobs policy * 60000
                ..< sb_endAtUtc b + bufferBetweenJobs policy * 60000} \<noteq> {}"
proof -
  have c: "start < start + d * 60000"
    using assms(1) by simp
  have e: "sb_startAtUtc b - bufferBetweenJobs policy * 60000
      < sb_endAtUtc b + bufferBetweenJobs policy * 60000"
    using assms(2,3) by simp
  from half_open_meet [OF c e] show ?thesis
    by (auto simp: conflicts_def candidateEnd_def msPerMinute_def)
qed

text \<open>
  Testing the candidate against the booking's interval expanded by the whole buffer is
  the same as letting both jobs carry half the buffer on either side: with \<open>h\<close> for half
  the buffer, the two widened intervals meet exactly when the candidate meets the
  booking's interval expanded by \<open>2 * h\<close>.
\<close>

lemma half_buffer_on_both_jobs:
  fixes s e bs be h :: int
  assumes "s < e" "bs < be" "0 \<le> h"
  shows "{s - h ..< e + h} \<inter> {bs - h ..< be + h} = {}
         \<longleftrightarrow> {s ..< e} \<inter> {bs - 2 * h ..< be + 2 * h} = {}"
proof -
  have 1: "s - h < e + h" "bs - h < be + h" "bs - 2 * h < be + 2 * h"
    using assms by simp_all
  show ?thesis
    unfolding half_open_meet [OF 1(1) 1(2)] half_open_meet [OF assms(1) 1(3)] by auto
qed

lemma bookable_iff:
  "bookable policy bs start end \<longleftrightarrow> (\<forall>b\<in>set bs. \<not> conflicts policy start end b)"
  by (simp add: bookable_def list_ex_iff)

lemma starts_computeSlots:
  "startUtc ` set (computeSlots now policy day d bs) =
     {s \<in> set (candidates now policy day).
        fitsWindow policy day d s \<and> bookable policy bs s (candidateEnd s d)}"
  by (auto simp: computeSlots_def image_iff)

lemma fitsWindow_iff:
  "operatingWindow policy day = Some (opens, closes) \<Longrightarrow>
     fitsWindow policy day d s \<longleftrightarrow> candidateEnd s d \<le> closes"
  by (simp add: fitsWindow_def)

text \<open>Candidates are generated, and slots emitted, in strictly ascending order.\<close>

lemma candidateStarts_lower:
  "x \<in> set (candidateStarts step start closes) \<Longrightarrow> start \<le> x \<and> x < closes"
proof (induction step start closes rule: candidateStarts.induct)
  case (1 step start closes)
  show ?case
  proof (cases "0 < step \<and> start < closes")
    case True
    with "1.prems" have "x = start \<or> x \<in> set (candidateStarts step (start + step) closes)"
      by (subst (asm) candidateStarts.simps) simp
    with "1.IH" True show ?thesis by auto
  next
    case False
    with "1.prems" show ?thesis by (subst (asm) candidateStarts.simps) simp
  qed
qed

lemma candidateStarts_ascending: "sorted_wrt (<) (candidateStarts step start closes)"
proof (induction step start closes rule: candidateStarts.induct)
  case (1 step start closes)
  show ?case
  proof (cases "0 < step \<and> start < closes")
    case True
    then have "\<forall>x\<in>set (candidateStarts step (start + step) closes). start < x"
      using candidateStarts_lower [of _ step "start + step" closes] by force
    with "1.IH" True show ?thesis by (subst candidateStarts.simps) simp
  next
    case False
    then show ?thesis by (subst candidateStarts.simps) auto
  qed
qed

lemma candidates_ascending: "sorted_wrt (<) (candidates now policy day)"
  by (simp add: candidates_def candidateStarts_ascending Let_def split: option.splits)

lemma computeSlots_ascending:
  "sorted_wrt (<) (map startUtc (computeSlots now policy day d bs))"
proof -
  have "map startUtc (computeSlots now policy day d bs) =
      filter (\<lambda>s. bookable policy bs s (candidateEnd s d))
        (filter (fitsWindow policy day d) (candidates now policy day))"
    by (simp add: computeSlots_def comp_def)
  then show ?thesis
    by (simp add: sorted_wrt_filter candidates_ascending)
qed

section \<open>Overlap rule of the availability engine\<close>

text \<open>
  The example day, evaluated: the operating window, the candidates of the 30-minute
  policy, and the slots for 90 minutes without bookings and for 60 minutes around the
  example booking.
\<close>

lemma example_window:
  "operatingWindow examplePolicy monday = Some (mondayAt 9 0, mondayAt 17 0)"
  by code_simp

lemma example_candidates:
  "candidates eveningNow examplePolicy monday =
     [mondayAt 9 0, mondayAt 9 30, mondayAt 10 0, mondayAt 10 30, mondayAt 11 0, mondayAt 11 30,
      mondayAt 12 0, mondayAt 12 30, mondayAt 13 0, mondayAt 13 30, mondayAt 14 0, mondayAt 14 30,
      mondayAt 15 0, mondayAt 15 30, mondayAt 16 0, mondayAt 16 30]"
  by code_simp

lemma example_slots_90:
  "computeSlots eveningNow examplePolicy monday 90 [] =
     map (\<lambda>s. \<lparr>startUtc = s, endUtc = candidateEnd s 90\<rparr>)
       [mondayAt 9 0, mondayAt 9 30, mondayAt 10 0, mondayAt 10 30, mondayAt 11 0, mondayAt 11 30,
        mondayAt 12 0, mondayAt 12 30, mondayAt 13 0, mondayAt 13 30, mondayAt 14 0, mondayAt 14 30,
        mondayAt 15 0, mondayAt 15 30]"
  by code_simp

lemma example_slots_60:
  "map startUtc (computeSlots eveningNow quarterHourPolicy monday 60 [exampleBooking]) =
     [mondayAt 11 45, mondayAt 12 0, mondayAt 12 15, mondayAt 12 30, mondayAt 12 45, mondayAt 13 0,
      mondayAt 13 15, mondayAt 13 30, mondayAt 13 45, mondayAt 14 0, mondayAt 14 15, mondayAt 14 30,
      mondayAt 14 45, mondayAt 15 0, mondayAt 15 15, mondayAt 15 30, mondayAt 15 45, mondayAt 16 0]"
  by code_simp

lemma mondayAt_value: "mondayAt h m = 1767589200000 + (h * 60 + m) * 60000"
  by (simp add: mondayAt_def wallClock_def UTC_def MakeDate_def usEastern_def fixedOffset_def
      monday_def msPerDay_def msPerMinute_def)

lemma example_0930_candidate:
  "mondayAt 9 30 \<in> set (candidates eveningNow quarterHourPolicy monday)
   \<and> fitsWindow quarterHourPolicy monday 60 (mondayAt 9 30)"
  by code_simp

lemma example_0930_excluded:
  "mondayAt 9 30 \<notin> startUtc ` set (computeSlots eveningNow quarterHourPolicy monday 60 [exampleBooking])"
  unfolding set_map [symmetric] example_slots_60 by (simp add: mondayAt_value)

lemma example_1145_included:
  "mondayAt 11 45 \<in> startUtc ` set (computeSlots eveningNow quarterHourPolicy monday 60 [exampleBooking])"
  unfolding set_map [symmetric] example_slots_60 by simp

text \<open>
  Candidates every five minutes tell a buffer of 15 minutes from a shorter one: 11:40 is
  a candidate that fits the day, and so is 11:45.
\<close>

lemma example_1140_candidate:
  "mondayAt 11 40 \<in> set (candidates eveningNow fiveMinutePolicy monday)
   \<and> fitsWindow fiveMinutePolicy monday 60 (mondayAt 11 40)"
  by code_simp

lemma example_1145_candidate:
  "mondayAt 11 45 \<in> set (candidates eveningNow fiveMinutePolicy monday)
   \<and> fitsWindow fiveMinutePolicy monday 60 (mondayAt 11 45)"
  by code_simp

lemma example_booking_fields:
  "sb_status exampleBooking = Confirmed" "sb_startAtUtc exampleBooking = mondayAt 10 0"
  "sb_endAtUtc exampleBooking = mondayAt 11 30"
  by (simp_all add: exampleBooking_def)

lemma example_buffers:
  "bufferBetweenJobs quarterHourPolicy = 15" "bufferBetweenJobs fiveMinutePolicy = 15"
  by (simp_all add: quarterHourPolicy_def fiveMinutePolicy_def examplePolicy_def)

text \<open>
  Claim C2. With a positive requested duration, a buffer that is not negative and stored
  bookings of positive length, \<^verbatim>\<open>computeSlots\<close> emits a slot starting at \<open>start\<close>
  exactly when \<open>start\<close> is a generated candidate that fits the operating window and the
  interval from \<open>start\<close> to \<open>start\<close> plus the requested duration has no instant in common
  with the interval of any Confirmed booking expanded on both sides by the buffer; that
  is the test under which each of two jobs carries half the buffer on either side.
  Half-open intervals that only touch have no instant in common. With one Confirmed
  booking from 10:00 to 11:30 (expanded: 09:45 to 11:45), a buffer of 15 minutes,
  candidates every 15 minutes and a requested duration of 60 minutes, the candidate of
  09:30 is not emitted and the candidate of 11:45 is.
\<close>

theorem computeSlots_emits_iff_disjoint:
  "(0 < d \<and> 0 \<le> bufferBetweenJobs policy \<and> (\<forall>b\<in>set bs. sb_startAtUtc b < sb_endAtUtc b) \<longrightarrow>
      (start \<in> startUtc ` set (computeSlots now policy day d bs) \<longleftrightarrow>
         start \<in> set (candidates now policy day)
       \<and> fitsWindow policy day d start
       \<and> (\<forall>b\<in>set bs. sb_status b = Confirmed \<longrightarrow>
             {start ..< start + d * 60000}
               \<inter> {sb_startAtUtc b - bufferBetweenJobs policy * 60000
                    ..< sb_endAtUtc b + bufferBetweenJobs policy * 60000} = {})))
   \<and> mondayAt 9 30 \<in> set (candidates eveningNow quarterHourPolicy monday)
   \<and> fitsWindow quarterHourPolicy monday 60 (mondayAt 9 30)
   \<and> mondayAt 9 30 \<notin> startUtc ` set (computeSlots eveningNow quarterHourPolicy monday 60 [exampleBooking])
   \<and> mondayAt 11 45 \<in> startUtc ` set (computeSlots eveningNow quarterHourPolicy monday 60 [exampleBooking])"
proof -
  have g: "start \<in> startUtc ` set (computeSlots now policy day d bs) \<longleftrightarrow>
         start \<in> set (candidates now policy day)
       \<and> fitsWindow policy day d start
       \<and> (\<forall>b\<in>set bs. sb_status b = Confirmed \<longrightarrow>
             {start ..< start + d * 60000}
               \<inter> {sb_startAtUtc b - bufferBetweenJobs policy * 60000
                    ..< sb_endAtUtc b + bufferBetweenJobs policy * 60000} = {})"
    if h: "0 < d" "0 \<le> bufferBetweenJobs policy" "\<forall>b\<in>set bs. sb_startAtUtc b < sb_endAtUtc b"
  proof -
    have "bookable policy bs start (candidateEnd start d) \<longleftrightarrow>
        (\<forall>b\<in>set bs. sb_status b = Confirmed \<longrightarrow>
             {start ..< start + d * 60000}
               \<inter> {sb_startAtUtc b - bufferBetweenJobs policy * 60000
                    ..< sb_endAtUtc b + bufferBetweenJobs policy * 60000} = {})"
      unfolding bookable_iff using conflicts_iff_meet [OF h(1) h(2)] h(3) by blast
    then show ?thesis
      using starts_computeSlots [of now policy day d bs] by blast
  qed
  from g example_0930_candidate example_0930_excluded example_1145_included
  show ?thesis by blast
qed

text \<open>
  The theorem at work on the example booking: on the quarter-hour grid the slot of 11:45
  is emitted, hence clear of 09:45 to 11:45; on the five-minute grid the candidate of
  11:40 lies inside 09:45 to 11:45, hence is not emitted, and the candidate of 11:45 is
  clear of it, hence emitted.
\<close>

theorem computeSlots_emits_iff_disjoint_witness:
  "(0::int) < 60 \<and> 0 \<le> bufferBetweenJobs quarterHourPolicy
   \<and> 0 \<le> bufferBetweenJobs fiveMinutePolicy
   \<and> sb_startAtUtc exampleBooking < sb_endAtUtc exampleBooking
   \<and> sb_status exampleBooking = Confirmed
   \<and> mondayAt 11 45 \<in> startUtc ` set (computeSlots eveningNow quarterHourPolicy monday 60 [exampleBooking])
   \<and> {mondayAt 11 45 ..< mondayAt 12 45} \<inter> {mondayAt 9 45 ..< mondayAt 11 45} = {}
   \<and> mondayAt 11 40 \<in> set (candidates eveningNow fiveMinutePolicy monday)
   \<and> fitsWindow fiveMinutePolicy monday 60 (mondayAt 11 40)
   \<and> mondayAt 11 40 \<in> {mondayAt 11 40 ..< mondayAt 12 40} \<inter> {mondayAt 9 45 ..< mondayAt 11 45}
   \<and> mondayAt 11 40 \<notin> startUtc ` set (computeSlots eveningNow fiveMinutePolicy monday 60 [exampleBooking])
   \<and> mondayAt 11 45 \<in> startUtc ` set (computeSlots eveningNow fiveMinutePolicy monday 60 [exampleBooking])"
proof -
  have h1: "(0::int) < 60" by simp
  have h2: "0 \<le> bufferBetweenJobs quarterHourPolicy" "0 \<le> bufferBetweenJobs fiveMinutePolicy"
    by (simp_all add: example_buffers)
  have h3: "\<forall>b\<in>set [exampleBooking]. sb_startAtUtc b < sb_endAtUtc b"
    by (simp add: example_booking_fields mondayAt_value)
  have member: "exampleBooking \<in> set [exampleBooking]"
    by simp
  have expanded:
    "sb_startAtUtc exampleBooking - bufferBetweenJobs quarterHourPolicy * 60000 = mondayAt 9 45"
    "sb_endAtUtc exampleBooking + bufferBetweenJobs quarterHourPolicy * 60000 = mondayAt 11 45"
    "sb_startAtUtc exampleBooking - bufferBetweenJobs fiveMinutePolicy * 60000 = mondayAt 9 45"
    "sb_endAtUtc exampleBooking + bufferBetweenJobs fiveMinutePolicy * 60000 = mondayAt 11 45"
    by (simp_all add: example_booking_fields example_buffers mondayAt_value)
  have ends: "mondayAt 11 45 + 60 * 60000 = mondayAt 12 45"
    "mondayAt 11 40 + 60 * 60000 = mondayAt 12 40"
    by (simp_all add: mondayAt_value)
  note quarter = computeSlots_emits_iff_disjoint [where d = 60 and policy = quarterHourPolicy
      and bs = "[exampleBooking]" and start = "mondayAt 11 45" and now = eveningNow and day = monday]
  note five = computeSlots_emits_iff_disjoint [where d = 60 and policy = fiveMinutePolicy
      and bs = "[exampleBooking]" and now = eveningNow and day = monday]
  from quarter h1 h2(1) h3 example_1145_included
  have "\<forall>b\<in>set [exampleBooking]. sb_status b = Confirmed \<longrightarrow>
      {mondayAt 11 45 ..< mondayAt 11 45 + 60 * 60000}
        \<inter> {sb_startAtUtc b - bufferBetweenJobs quarterHourPolicy * 60000
             ..< sb_endAtUtc b + bufferBetweenJobs quarterHourPolicy * 60000} = {}"
    by blast
  with member example_booking_fields(1)
  have "{mondayAt 11 45 ..< mondayAt 11 45 + 60 * 60000}
        \<inter> {sb_startAtUtc exampleBooking - bufferBetweenJobs quarterHourPolicy * 60000
             ..< sb_endAtUtc exampleBooking + bufferBetweenJobs quarterHourPolicy * 60000} = {}"
    by blast
  then have clear: "{mondayAt 11 45 ..< mondayAt 12 45} \<inter> {mondayAt 9 45 ..< mondayAt 11 45} = {}"
    unfolding expanded ends .
  have inside: "mondayAt 11 40 \<in> {mondayAt 11 40 ..< mondayAt 12 40} \<inter> {mondayAt 9 45 ..< mondayAt 11 45}"
    by (simp add: mondayAt_value)
  have out: "mondayAt 11 40 \<notin> startUtc ` set (computeSlots eveningNow fiveMinutePolicy monday 60 [exampleBooking])"
  proof
    assume "mondayAt 11 40 \<in> startUtc ` set (computeSlots eveningNow fiveMinutePolicy monday 60 [exampleBooking])"
    with five [where start = "mondayAt 11 40"] h1 h2(2) h3
    have "\<forall>b\<in>set [exampleBooking]. sb_status b = Confirmed \<longrightarrow>
      {mondayAt 11 40 ..< mondayAt 11 40 + 60 * 60000}
        \<inter> {sb_startAtUtc b - bufferBetweenJobs fiveMinutePolicy * 60000
             ..< sb_endAtUtc b + bufferBetweenJobs fiveMinutePolicy * 60000} = {}"
      by blast
    with member example_booking_fields(1)
    have "{mondayAt 11 40 ..< mondayAt 11 40 + 60 * 60000}
        \<inter> {sb_startAtUtc exampleBooking - bufferBetweenJobs fiveMinutePolicy * 60000
             ..< sb_endAtUtc exampleBooking + bufferBetweenJobs fiveMinutePolicy * 60000} = {}"
      by blast
    then have "{mondayAt 11 40 ..< mondayAt 12 40} \<inter> {mondayAt 9 45 ..< mondayAt 11 45} = {}"
      unfolding expanded ends .
    with inside show False by blast
  qed
  from clear
  have "{mondayAt 11 45 ..< mondayAt 11 45 + 60 * 60000}
        \<inter> {sb_startAtUtc exampleBooking - bufferBetweenJobs fiveMinutePolicy * 60000
             ..< sb_endAtUtc exampleBooking + bufferBetweenJobs fiveMinutePolicy * 60000} = {}"
    unfolding expanded ends .
  then have "\<forall>b\<in>set [exampleBooking]. sb_status b = Confirmed \<longrightarrow>
      {mondayAt 11 45 ..< mondayAt 11 45 + 60 * 60000}
        \<inter> {sb_startAtUtc b - bufferBetweenJobs fiveMinutePolicy * 60000
             ..< sb_endAtUtc b + bufferBetweenJobs fiveMinutePolicy * 60000} = {}"
    by simp
  with five [where start = "mondayAt 11 45"] h1 h2(2) h3 example_1145_candidate
  have "in": "mondayAt 11 45 \<in> startUtc ` set (computeSlots eveningNow fiveMinutePolicy monday 60 [exampleBooking])"
    by blast
  from h1 h2 h3 example_booking_fields(1) example_1145_included clear example_1140_candidate
    inside out "in"
  show ?thesis by simp
qed

section \<open>Closing time of the operating window\<close>

lemma example_1530_candidate: "mondayAt 15 30 \<in> set (candidates eveningNow examplePolicy monday)"
  unfolding example_candidates by simp

lemma example_1600_candidate: "mondayAt 16 0 \<in> set (candidates eveningNow examplePolicy monday)"
  unfolding example_candidates by simp

lemma example_1530_end: "candidateEnd (mondayAt 15 30) 90 = mondayAt 17 0"
  by (simp add: candidateEnd_def mondayAt_value msPerMinute_def)

lemma example_1600_end: "candidateEnd (mondayAt 16 0) 90 = mondayAt 17 30"
  by (simp add: candidateEnd_def mondayAt_value msPerMinute_def)

lemma example_0900_end: "candidateEnd (mondayAt 9 0) 90 = mondayAt 10 30"
  by (simp add: candidateEnd_def mondayAt_value msPerMinute_def)

lemma example_slots_90_starts:
  "startUtc ` set (computeSlots eveningNow examplePolicy monday 90 []) =
     {mondayAt 9 0, mondayAt 9 30, mondayAt 10 0, mondayAt 10 30, mondayAt 11 0, mondayAt 11 30,
      mondayAt 12 0, mondayAt 12 30, mondayAt 13 0, mondayAt 13 30, mondayAt 14 0, mondayAt 14 30,
      mondayAt 15 0, mondayAt 15 30}"
  unfolding example_slots_90 by simp

text \<open>
  Claim C3. A generated candidate that no Confirmed booking blocks is emitted exactly
  when its end, the start plus the requested duration, is not after the closing time of
  the operating window: a candidate that ends at the closing time is emitted, one that
  ends later is not. With the policy Monday to Saturday 9:00 to 17:00, candidates every
  30 minutes, a buffer of 15 minutes, no booking and a requested duration of 90 minutes,
  the first slot is 09:00 to 10:30 and the last is 15:30 to 17:00; no slot starts at
  15:45 or at 16:00.
\<close>

theorem computeSlots_window_close:
  "(start \<in> set (candidates now policy day)
      \<and> operatingWindow policy day = Some (opens, closes)
      \<and> bookable policy bs start (candidateEnd start d) \<longrightarrow>
        (start \<in> startUtc ` set (computeSlots now policy day d bs) \<longleftrightarrow>
           candidateEnd start d \<le> closes))
   \<and> operatingWindow examplePolicy monday = Some (mondayAt 9 0, mondayAt 17 0)
   \<and> computeSlots eveningNow examplePolicy monday 90 [] \<noteq> []
   \<and> hd (computeSlots eveningNow examplePolicy monday 90 [])
        = \<lparr>startUtc = mondayAt 9 0, endUtc = mondayAt 10 30\<rparr>
   \<and> last (computeSlots eveningNow examplePolicy monday 90 [])
        = \<lparr>startUtc = mondayAt 15 30, endUtc = mondayAt 17 0\<rparr>
   \<and> mondayAt 15 45 \<notin> startUtc ` set (computeSlots eveningNow examplePolicy monday 90 [])
   \<and> mondayAt 16 0 \<notin> startUtc ` set (computeSlots eveningNow examplePolicy monday 90 [])"
proof -
  have g: "start \<in> startUtc ` set (computeSlots now policy day d bs) \<longleftrightarrow>
           candidateEnd start d \<le> closes"
    if "start \<in> set (candidates now policy day)"
      "operatingWindow policy day = Some (opens, closes)"
      "bookable policy bs start (candidateEnd start d)"
    using that by (simp add: starts_computeSlots fitsWindow_iff)
  have n: "computeSlots eveningNow examplePolicy monday 90 [] \<noteq> []"
    unfolding example_slots_90 by simp
  have h: "hd (computeSlots eveningNow examplePolicy monday 90 [])
        = \<lparr>startUtc = mondayAt 9 0, endUtc = mondayAt 10 30\<rparr>"
    unfolding example_slots_90 by (simp add: example_0900_end)
  have l: "last (computeSlots eveningNow examplePolicy monday 90 [])
        = \<lparr>startUtc = mondayAt 15 30, endUtc = mondayAt 17 0\<rparr>"
    unfolding example_slots_90 by (simp add: example_1530_end)
  have x: "mondayAt 15 45 \<notin> startUtc ` set (computeSlots eveningNow examplePolicy monday 90 [])"
    unfolding example_slots_90_starts by (simp add: mondayAt_value)
  have y: "mondayAt 16 0 \<notin> startUtc ` set (computeSlots eveningNow examplePolicy monday 90 [])"
    unfolding example_slots_90_starts by (simp add: mondayAt_value)
  from g example_window n h l x y show ?thesis by blast
qed

theorem computeSlots_window_close_witness:
  "mondayAt 15 30 \<in> set (candidates eveningNow examplePolicy monday)
   \<and> mondayAt 16 0 \<in> set (candidates eveningNow examplePolicy monday)
   \<and> operatingWindow examplePolicy monday = Some (mondayAt 9 0, mondayAt 17 0)
   \<and> bookable examplePolicy [] (mondayAt 15 30) (candidateEnd (mondayAt 15 30) 90)
   \<and> bookable examplePolicy [] (mondayAt 16 0) (candidateEnd (mondayAt 16 0) 90)
   \<and> candidateEnd (mondayAt 15 30) 90 = mondayAt 17 0
   \<and> mondayAt 15 30 \<in> startUtc ` set (computeSlots eveningNow examplePolicy monday 90 [])
   \<and> candidateEnd (mondayAt 16 0) 90 = mondayAt 17 30
   \<and> mondayAt 16 0 \<notin> startUtc ` set (computeSlots eveningNow examplePolicy monday 90 [])"
proof -
  have b: "bookable examplePolicy [] s e" for s e
    by (simp add: bookable_def)
  note t1 = computeSlots_window_close [where start = "mondayAt 15 30" and now = eveningNow
      and policy = examplePolicy and day = monday and opens = "mondayAt 9 0"
      and closes = "mondayAt 17 0" and bs = "[]" and d = 90]
  note t2 = computeSlots_window_close [where start = "mondayAt 16 0" and now = eveningNow
      and policy = examplePolicy and day = monday and opens = "mondayAt 9 0"
      and closes = "mondayAt 17 0" and bs = "[]" and d = 90]
  have le: "candidateEnd (mondayAt 15 30) 90 \<le> mondayAt 17 0"
    by (simp add: example_1530_end)
  have gt: "\<not> candidateEnd (mondayAt 16 0) 90 \<le> mondayAt 17 0"
    unfolding example_1600_end by (simp add: mondayAt_value)
  from t1 example_1530_candidate example_window b le
  have i: "mondayAt 15 30 \<in> startUtc ` set (computeSlots eveningNow examplePolicy monday 90 [])"
    by blast
  from t2 example_1600_candidate example_window b gt
  have o: "mondayAt 16 0 \<notin> startUtc ` set (computeSlots eveningNow examplePolicy monday 90 [])"
    by blast
  from example_1530_candidate example_1600_candidate example_window b example_1530_end
    example_1600_end i o
  show ?thesis by simp
qed

section \<open>Stored prices\<close>

text \<open>
  A reservation that succeeds stores the booking under its new id, with the price
  computed from the catalog of that moment.
\<close>

lemma newId_fresh: "b \<in> set store \<Longrightarrow> sb_id b < newId store"
proof -
  have f: "\<And>m. fold max xs m \<ge> m \<and> (\<forall>x\<in>set xs. x \<le> fold max xs m)" for xs :: "nat list"
  proof (induction xs)
    case Nil
    show ?case by simp
  next
    case (Cons a xs)
    from Cons [of "max a m"] show ?case by auto
  qed
  assume "b \<in> set store"
  then have "sb_id b \<in> set (map sb_id store)" by simp
  with f [of 0 "map sb_id store"] show ?thesis
    by (auto simp: newId_def less_Suc_eq_le)
qed

lemma fetch_newId: "fetchById store (newId store) = None"
proof -
  have "sb_id b \<noteq> newId store" if "b \<in> set store" for b
    using newId_fresh [OF that] by simp
  then show ?thesis by (simp add: fetchById_def find_None_iff)
qed

lemma find_append_second: "find P xs = None \<Longrightarrow> find P (xs @ ys) = find P ys"
  by (induction xs) (auto split: if_splits)

lemma reserve_persists:
  assumes "reserve now policy cat request store = (Inr b, store')"
  shows "fetchById store' (sb_id b) = Some b
       \<and> (\<exists>service selected.
             resolveService cat (rq_serviceId request) = Some service
           \<and> resolveAddOns cat (rq_addOnIds request) = Some selected
           \<and> sb_priceCents b = api_svc_cents service + sum_list (map api_addon_cents selected))"
proof -
  from assms have s: "store' = store @ [b]" and i: "sb_id b = newId store"
    by (auto simp: reserve_def Let_def split: option.splits if_splits)
  from assms have p: "\<exists>service selected.
             resolveService cat (rq_serviceId request) = Some service
           \<and> resolveAddOns cat (rq_addOnIds request) = Some selected
           \<and> sb_priceCents b = api_svc_cents service + sum_list (map api_addon_cents selected)"
    by (auto simp: reserve_def Let_def split: option.splits if_splits)
  have "fetchById (store @ [b]) (newId store) = Some b"
    using fetch_newId [of store] i by (simp add: fetchById_def find_append_second)
  with s i p show ?thesis by simp
qed










section \<open>The dates offered by the date picker\<close>

text \<open>
  The calendar arithmetic at known dates: the epoch, a leap day, a century that is not a
  leap year, and the first day of 2026 (a Thursday).
\<close>

lemma civil_calendar_checks:
  "civilFromDays 0 = (1970, 0, 1)"
  "civilFromDays 11016 = (2000, 1, 29)"
  "civilFromDays (- 25508) = (1900, 2, 1)"
  "civilFromDays 20454 = (2026, 0, 1)"
  "daysFromCivil 2026 0 1 = 20454"
  "MakeDay 2026 0 32 = 20454 + 31"
  "WeekDay (MakeDate 20454 0) = 4"
  by code_simp+

text \<open>Entry \<open>k\<close> of the list is the one the loop builds for \<open>i = k + 1\<close>.\<close>

lemma upto_nth_1_30: "k < 30 \<Longrightarrow> [1..30] ! k = 1 + int k"
  by (simp add: nth_upto)

lemma entry_at:
  assumes "k < 30"
  shows "generateAvailableDates tz today ! k =
     \<lparr> date = isoDate (setDate tz (getDate tz today + (1 + int k)) today),
       formatted = localeMonthDay tz (setDate tz (getDate tz today + (1 + int k)) today),
       dayName = localeWeekday tz (setDate tz (getDate tz today + (1 + int k)) today) \<rparr>"
  using assms by (simp add: generateAvailableDates_def upto_nth_1_30 Let_def)

lemma length_generateAvailableDates: "length (generateAvailableDates tz today) = 30"
  by (simp add: generateAvailableDates_def)

lemma evening_local_date: "isoDate (LocalTime usEastern eveningNow) = js ''2026-01-01''"
  by code_simp

lemma evening_first_instant:
  "setDate usEastern (getDate usEastern eveningNow + (1 + int 0)) eveningNow = 1767412800000"
  by code_simp

lemma evening_first_date: "isoDate 1767412800000 = js ''2026-01-03''"
  by code_simp

lemma evening_first_formatted: "localeMonthDay usEastern 1767412800000 = js ''Jan 2''"
  by code_simp

lemma evening_first_dayName: "localeWeekday usEastern 1767412800000 = js ''Fri''"
  by code_simp

lemma evening_last_instant:
  "setDate usEastern (getDate usEastern eveningNow + (1 + int 29)) eveningNow = 1769918400000"
  by code_simp

lemma evening_last_date: "isoDate 1769918400000 = js ''2026-02-01''"
  by code_simp

lemma evening_last_formatted: "localeMonthDay usEastern 1769918400000 = js ''Jan 31''"
  by code_simp

lemma evening_last_dayName: "localeWeekday usEastern 1769918400000 = js ''Sat''"
  by code_simp

lemma midnight_local_date: "isoDate (LocalTime centralEuropean afterMidnightNow) = js ''2026-01-02''"
  by code_simp

lemma midnight_first_instant:
  "setDate centralEuropean (getDate centralEuropean afterMidnightNow + (1 + int 0)) afterMidnightNow
     = 1767396600000"
  by code_simp

lemma midnight_first_date: "isoDate 1767396600000 = js ''2026-01-02''"
  by code_simp

lemma midnight_first_formatted: "localeMonthDay centralEuropean 1767396600000 = js ''Jan 3''"
  by code_simp

lemma midnight_first_dayName: "localeWeekday centralEuropean 1767396600000 = js ''Sat''"
  by code_simp

lemma october_local_date: "isoDate (LocalTime usEastern2026 octoberNow) = js ''2026-10-20''"
  by code_simp

lemma october_first_instant:
  "setDate usEastern2026 (getDate usEastern2026 octoberNow + (1 + int 0)) octoberNow
     = 1792625400000"
  by code_simp

lemma october_first_date: "isoDate 1792625400000 = js ''2026-10-21''"
  by code_simp

lemma october_first_formatted: "localeMonthDay usEastern2026 1792625400000 = js ''Oct 21''"
  by code_simp

lemma october_first_dayName: "localeWeekday usEastern2026 1792625400000 = js ''Wed''"
  by code_simp

lemma october_last_instant:
  "setDate usEastern2026 (getDate usEastern2026 octoberNow + (1 + int 29)) octoberNow
     = 1795134600000"
  by code_simp

lemma october_last_date: "isoDate 1795134600000 = js ''2026-11-20''"
  by code_simp

lemma october_last_formatted: "localeMonthDay usEastern2026 1795134600000 = js ''Nov 19''"
  by code_simp

lemma october_last_dayName: "localeWeekday usEastern2026 1795134600000 = js ''Thu''"
  by code_simp

lemma october_utc_date: "isoDate octoberNow = js ''2026-10-20''"
  by code_simp

lemma october_eleventh_instant:
  "setDate usEastern2026 (getDate usEastern2026 octoberNow + (1 + int 10)) octoberNow
     = 1793489400000"
  by code_simp

lemma october_eleventh_date: "isoDate 1793489400000 = js ''2026-10-31''"
  by code_simp

lemma october_eleventh_formatted: "localeMonthDay usEastern2026 1793489400000 = js ''Oct 31''"
  by code_simp

lemma october_eleventh_dayName: "localeWeekday usEastern2026 1793489400000 = js ''Sat''"
  by code_simp

lemma october_twelfth_instant:
  "setDate usEastern2026 (getDate usEastern2026 octoberNow + (1 + int 11)) octoberNow
     = 1793579400000"
  by code_simp

lemma october_twelfth_date: "isoDate 1793579400000 = js ''2026-11-02''"
  by code_simp

lemma october_twelfth_formatted: "localeMonthDay usEastern2026 1793579400000 = js ''Nov 1''"
  by code_simp

lemma october_twelfth_dayName: "localeWeekday usEastern2026 1793579400000 = js ''Sun''"
  by code_simp

text \<open>
  Claim C9. \<^verbatim>\<open>generateAvailableDates\<close> always returns 30 entries, but the \<^verbatim>\<open>date\<close> key
  of an entry is the UTC date of the instant whose local date its label shows, and the
  keys are not the days at offsets 1 to 30 from today.
  \<^item> In a browser on US Eastern time at 19:30 on 20 October 2026 (the date is
    2026-10-20 locally and in UTC) the first entry is Wed, Oct 21 with the key 2026-10-21,
    the eleventh is Sat, Oct 31 with the key 2026-10-31, the twelfth is Sun, Nov 1 with
    the key 2026-11-02, and the last is Thu, Nov 19 with the key 2026-11-20: when
    daylight saving ends, the keys skip 1 November and run on to offset 31.
  \<^item> In a browser on US Eastern time at 23:00 on 1 January 2026 the first entry is
    labelled Fri, Jan 2 and the last Sat, Jan 31, the local days at offsets 1 and 30;
    their keys are 2026-01-03 and 2026-02-01, the days at offsets 2 and 31.
  \<^item> In a browser on Central European time at 00:30 on 2 January 2026 the first entry
    is labelled Sat, Jan 3 and carries the key 2026-01-02, the local date of today.
\<close>

theorem generateAvailableDates_date_against_label:
  "length (generateAvailableDates tz today) = 30
   \<and> isoDate (LocalTime usEastern2026 octoberNow) = js ''2026-10-20''
   \<and> isoDate octoberNow = js ''2026-10-20''
   \<and> generateAvailableDates usEastern2026 octoberNow ! 0
       = \<lparr> date = js ''2026-10-21'', formatted = js ''Oct 21'', dayName = js ''Wed'' \<rparr>
   \<and> generateAvailableDates usEastern2026 octoberNow ! 10
       = \<lparr> date = js ''2026-10-31'', formatted = js ''Oct 31'', dayName = js ''Sat'' \<rparr>
   \<and> generateAvailableDates usEastern2026 octoberNow ! 11
       = \<lparr> date = js ''2026-11-02'', formatted = js ''Nov 1'', dayName = js ''Sun'' \<rparr>
   \<and> generateAvailableDates usEastern2026 octoberNow ! 29
       = \<lparr> date = js ''2026-11-20'', formatted = js ''Nov 19'', dayName = js ''Thu'' \<rparr>
   \<and> isoDate (LocalTime usEastern eveningNow) = js ''2026-01-01''
   \<and> generateAvailableDates usEastern eveningNow ! 0
       = \<lparr> date = js ''2026-01-03'', formatted = js ''Jan 2'', dayName = js ''Fri'' \<rparr>
   \<and> generateAvailableDates usEastern eveningNow ! 29
       = \<lparr> date = js ''2026-02-01'', formatted = js ''Jan 31'', dayName = js ''Sat'' \<rparr>
   \<and> isoDate (LocalTime centralEuropean afterMidnightNow) = js ''2026-01-02''
   \<and> generateAvailableDates centralEuropean afterMidnightNow ! 0
       = \<lparr> date = js ''2026-01-02'', formatted = js ''Jan 3'', dayName = js ''Sat'' \<rparr>"
proof -
  have o1: "generateAvailableDates usEastern2026 octoberNow ! 0
       = \<lparr> date = js ''2026-10-21'', formatted = js ''Oct 21'', dayName = js ''Wed'' \<rparr>"
    using entry_at [of 0 usEastern2026 octoberNow]
      october_first_instant october_first_date october_first_formatted october_first_dayName
    by simp
  have o11: "generateAvailableDates usEastern2026 octoberNow ! 10
       = \<lparr> date = js ''2026-10-31'', formatted = js ''Oct 31'', dayName = js ''Sat'' \<rparr>"
    using entry_at [of 10 usEastern2026 octoberNow]
      october_eleventh_instant october_eleventh_date october_eleventh_formatted
      october_eleventh_dayName
    by simp
  have o12: "generateAvailableDates usEastern2026 octoberNow ! 11
       = \<lparr> date = js ''2026-11-02'', formatted = js ''Nov 1'', dayName = js ''Sun'' \<rparr>"
    using entry_at [of 11 usEastern2026 octoberNow]
      october_twelfth_instant october_twelfth_date october_twelfth_formatted
      october_twelfth_dayName
    by simp
  have o30: "generateAvailableDates usEastern2026 octoberNow ! 29
       = \<lparr> date = js ''2026-11-20'', formatted = js ''Nov 19'', dayName = js ''Thu'' \<rparr>"
    using entry_at [of 29 usEastern2026 octoberNow]
      october_last_instant october_last_date october_last_formatted october_last_dayName
    by simp
  have e1: "generateAvailableDates usEastern eveningNow ! 0
       = \<lparr> date = js ''2026-01-03'', formatted = js ''Jan 2'', dayName = js ''Fri'' \<rparr>"
    using entry_at [of 0 usEastern eveningNow]
      evening_first_instant evening_first_date evening_first_formatted evening_first_dayName
    by simp
  have e30: "generateAvailableDates usEastern eveningNow ! 29
       = \<lparr> date = js ''2026-02-01'', formatted = js ''Jan 31'', dayName = js ''Sat'' \<rparr>"
    using entry_at [of 29 usEastern eveningNow]
      evening_last_instant evening_last_date evening_last_formatted evening_last_dayName
    by simp
  have m1: "generateAvailableDates centralEuropean afterMidnightNow ! 0
       = \<lparr> date = js ''2026-01-02'', formatted = js ''Jan 3'', dayName = js ''Sat'' \<rparr>"
    using entry_at [of 0 centralEuropean afterMidnightNow]
      midnight_first_instant midnight_first_date midnight_first_formatted midnight_first_dayName
    by simp
  from length_generateAvailableDates [of tz today] october_local_date october_utc_date
    o1 o11 o12 o30 evening_local_date e1 e30 midnight_local_date m1
  show ?thesis by (intro conjI)
qed

end
